theory Spec2Isabelle
  imports Main "HOL-Library.Sublist" "HOL-Library.Multiset" "HOL-Library.Product_Lexorder"
begin

section \<open>Data model (src/types.ts)\<close>

text \<open>
  Strings are byte lists holding valid UTF-8, so a Polish letter of the keyword tables is
  two bytes and a white-space character beyond ASCII is two or three. Numbers are integers:
  the command line parses them with \<^verbatim>\<open>parseInt\<close>, and the extraction parses runs of
  digits. The runtime holds an integer exactly up to \<open>2^53 - 1\<close> in magnitude (a safe
  integer); beyond that \<^verbatim>\<open>parseInt\<close> rounds and a template literal may use the exponent
  form, which the model does not follow. An optional field that is absent is \<open>None\<close>;
  \<^verbatim>\<open>NaN\<close>, which \<^verbatim>\<open>parseInt\<close> gives for a non-numeric argument, is falsy at each of
  its uses in the scrapers and is likewise \<open>None\<close>.
\<close>

datatype source = Olx | Otodom

record Room =
  title :: string
  price :: "int option"
  currency :: string
  location :: string
  url :: string
  source :: source
  roomType' :: "string option"
  area :: "int option"
  imageUrl :: "string option"

record SearchOptions =
  maxPrice :: "int option"
  roomType :: "string option"
  district :: "string option"
  pages :: "int option"

section \<open>String operations of the runtime\<close>

definition startsWith :: "string \<Rightarrow> string \<Rightarrow> bool" where
  "startsWith s p = prefix p s"

definition includes_str :: "string \<Rightarrow> string \<Rightarrow> bool" where
  "includes_str s kw = sublist kw s"

definition isDigit :: "char \<Rightarrow> bool" where
  "isDigit c = (c \<in> set ''0123456789'')"

text \<open>
  White space as the pattern class \<^verbatim>\<open>\s\<close> and \<^verbatim>\<open>trim\<close> of the runtime take it: the
  characters U+0009 to U+000D and U+0020, and, in their UTF-8 bytes, U+00A0, U+1680,
  U+2000 to U+200A, U+2028, U+2029, U+202F, U+205F, U+3000 and U+FEFF.
\<close>

definition whiteSpaces :: "string list" where
  "whiteSpaces =
     [[CHR 0x09], [CHR 0x0A], [CHR 0x0B], [CHR 0x0C], [CHR 0x0D], [CHR 0x20],
      [CHR 0xC2, CHR 0xA0],
      [CHR 0xE1, CHR 0x9A, CHR 0x80],
      [CHR 0xE2, CHR 0x80, CHR 0x80], [CHR 0xE2, CHR 0x80, CHR 0x81],
      [CHR 0xE2, CHR 0x80, CHR 0x82], [CHR 0xE2, CHR 0x80, CHR 0x83],
      [CHR 0xE2, CHR 0x80, CHR 0x84], [CHR 0xE2, CHR 0x80, CHR 0x85],
      [CHR 0xE2, CHR 0x80, CHR 0x86], [CHR 0xE2, CHR 0x80, CHR 0x87],
      [CHR 0xE2, CHR 0x80, CHR 0x88], [CHR 0xE2, CHR 0x80, CHR 0x89],
      [CHR 0xE2, CHR 0x80, CHR 0x8A],
      [CHR 0xE2, CHR 0x80, CHR 0xA8], [CHR 0xE2, CHR 0x80, CHR 0xA9],
      [CHR 0xE2, CHR 0x80, CHR 0xAF],
      [CHR 0xE2, CHR 0x81, CHR 0x9F],
      [CHR 0xE3, CHR 0x80, CHR 0x80],
      [CHR 0xEF, CHR 0xBB, CHR 0xBF]]"

text \<open>
  The number of bytes of the first of the given byte sequences that a text starts with;
  0 when it starts with none of them.
\<close>

definition startLength :: "string list \<Rightarrow> string \<Rightarrow> nat" where
  "startLength ws s = (case find (\<lambda>w. prefix w s) ws of None \<Rightarrow> 0 | Some w \<Rightarrow> length w)"

text \<open>The number of bytes of the white-space character a text starts with, or 0.\<close>

definition spaceAt :: "string \<Rightarrow> nat" where
  "spaceAt s = startLength whiteSpaces s"

text \<open>The text without the given sequences at its start.\<close>

fun dropStart :: "string list \<Rightarrow> string \<Rightarrow> string" where
  "dropStart ws [] = []"
| "dropStart ws (c # cs) =
     (if startLength ws (c # cs) = 0 then c # cs
      else dropStart ws (drop (startLength ws (c # cs) - 1) cs))"

text \<open>
  \<^verbatim>\<open>trim\<close>: white space goes from the start, and from the end (on the reversed text,
  with the reversed byte sequences).
\<close>

definition trim :: "string \<Rightarrow> string" where
  "trim s = rev (dropStart (map rev whiteSpaces) (rev (dropStart whiteSpaces s)))"

text \<open>\<^verbatim>\<open>s.replace(/\s/g, "")\<close>\<close>

fun removeSpaces :: "string \<Rightarrow> string" where
  "removeSpaces [] = []"
| "removeSpaces (c # cs) =
     (if spaceAt (c # cs) = 0 then c # removeSpaces cs
      else removeSpaces (drop (spaceAt (c # cs) - 1) cs))"

text \<open>\<^verbatim>\<open>s.split(sep)[0]\<close>: the text before the first occurrence of a non-empty separator.\<close>

fun splitHead :: "string \<Rightarrow> string \<Rightarrow> string" where
  "splitHead sep [] = []"
| "splitHead sep (c # cs) = (if prefix sep (c # cs) then [] else c # splitHead sep cs)"

fun joinWith :: "string \<Rightarrow> string list \<Rightarrow> string" where
  "joinWith sep [] = []"
| "joinWith sep [p] = p"
| "joinWith sep (p # q # ps) = p @ sep @ joinWith sep (q # ps)"

definition lowerAscii :: "char \<Rightarrow> char" where
  "lowerAscii c =
     (case map_of (zip ''ABCDEFGHIJKLMNOPQRSTUVWXYZ'' ''abcdefghijklmnopqrstuvwxyz'') c of
        None \<Rightarrow> c
      | Some l \<Rightarrow> l)"

text \<open>
  The capital Polish letters and their small forms, as UTF-8 byte pairs
  (A-ogonek, C-acute, E-ogonek, L-stroke, N-acute, O-acute, S-acute, Z-acute, Z-dot).
\<close>

definition polishLower :: "(string \<times> string) list" where
  "polishLower =
     [([CHR 0xC4, CHR 0x84], [CHR 0xC4, CHR 0x85]),
      ([CHR 0xC4, CHR 0x86], [CHR 0xC4, CHR 0x87]),
      ([CHR 0xC4, CHR 0x98], [CHR 0xC4, CHR 0x99]),
      ([CHR 0xC5, CHR 0x81], [CHR 0xC5, CHR 0x82]),
      ([CHR 0xC5, CHR 0x83], [CHR 0xC5, CHR 0x84]),
      ([CHR 0xC3, CHR 0x93], [CHR 0xC3, CHR 0xB3]),
      ([CHR 0xC5, CHR 0x9A], [CHR 0xC5, CHR 0x9B]),
      ([CHR 0xC5, CHR 0xB9], [CHR 0xC5, CHR 0xBA]),
      ([CHR 0xC5, CHR 0xBB], [CHR 0xC5, CHR 0xBC])]"

text \<open>
  \<^verbatim>\<open>toLowerCase\<close> on ASCII and Polish letters, the letters of the keyword tables and
  of the two sites. Every other byte is kept: the runtime also lowers the capital letters
  of other scripts, which the model does not follow.
\<close>

fun toLowerCase :: "string \<Rightarrow> string" where
  "toLowerCase [] = []"
| "toLowerCase [c] = [lowerAscii c]"
| "toLowerCase (c # d # cs) =
     (case map_of polishLower [c, d] of
        Some l \<Rightarrow> l @ toLowerCase cs
      | None \<Rightarrow> lowerAscii c # toLowerCase (d # cs))"

text \<open>
  Decimal rendering of an integer, as a template literal renders a safe integer (the
  runtime switches to the exponent form from \<open>10^21\<close>).
\<close>

fun digitsOf :: "nat \<Rightarrow> string" where
  "digitsOf n =
     (if n < 10 then [''0123456789'' ! n] else digitsOf (n div 10) @ [''0123456789'' ! (n mod 10)])"

declare digitsOf.simps [simp del]

definition numToString :: "int \<Rightarrow> string" where
  "numToString n = (if n < 0 then ''-'' @ digitsOf (nat (- n)) else digitsOf (nat n))"

text \<open>\<^verbatim>\<open>Number.isSafeInteger\<close>, on integers.\<close>

definition safeInteger :: "int \<Rightarrow> bool" where
  "safeInteger n = (\<bar>n\<bar> \<le> 2 ^ 53 - 1)"

text \<open>
  \<^verbatim>\<open>parseInt(s, 10)\<close> where \<open>s\<close> starts with a digit, which is how both scrapers call
  it: the value of the leading run of digits (exact in the runtime up to \<open>2^53\<close>).
\<close>

definition digitValue :: "char \<Rightarrow> int" where
  "digitValue c = int (length (takeWhile (\<lambda>d. d \<noteq> c) ''0123456789''))"

definition parseInt10 :: "string \<Rightarrow> int" where
  "parseInt10 s = foldl (\<lambda>a c. 10 * a + digitValue c) 0 (takeWhile isDigit s)"

text \<open>Capture group 1 of the first match of \<^verbatim>\<open>/(\d+)/\<close>.\<close>

definition matchDigits :: "string \<Rightarrow> string option" where
  "matchDigits s =
     (let r = dropWhile (\<lambda>c. \<not> isDigit c) s
      in if r = [] then None else Some (takeWhile isDigit r))"

section \<open>The rendered page, as the scrapers query it\<close>

text \<open>
  The browser is outside the repository. A card is what the element queries of the
  extraction return for one matched element: for an element found, its text content or the
  attribute read from it; \<open>None\<close> for an element not found. \<open>linkEl\<close> and \<open>imgEl\<close> hold the
  \<^verbatim>\<open>href\<close> and \<^verbatim>\<open>src\<close> attributes, which may themselves be missing.
\<close>

record card =
  linkEl :: "string option option"
  titleEl :: "string option"
  priceEl :: "string option"
  locationEl :: "string option"
  areaEl :: "string option"
  imgEl :: "string option option"
  textContent :: string

text \<open>
  A page: the elements each card selector finds, in the order of the selector list, and the
  pagination button (\<open>None\<close> when there is none, else whether it is disabled).
\<close>

record page =
  found :: "card list list"
  nextBtn :: "bool option"

text \<open>The site answers a URL with a page; \<open>None\<close> is a navigation that throws.\<close>

type_synonym site = "string \<Rightarrow> page option"

datatype error = NavigationError

definition MAX_PAGES :: int where
  "MAX_PAGES = 10"

text \<open>\<^verbatim>\<open>Math.min(options.pages || 5, MAX_PAGES)\<close>\<close>

definition pagesToScrape :: "SearchOptions \<Rightarrow> int" where
  "pagesToScrape options =
     min (case pages options of None \<Rightarrow> 5 | Some n \<Rightarrow> if n = 0 then 5 else n) MAX_PAGES"

text \<open>The first selector that finds any element gives the cards.\<close>

fun selectCards :: "card list list \<Rightarrow> card list" where
  "selectCards [] = []"
| "selectCards (f # fs) = (if length f > 0 then f else selectCards fs)"

definition hasNextPage :: "page \<Rightarrow> bool" where
  "hasNextPage pg = (case nextBtn pg of None \<Rightarrow> False | Some disabled \<Rightarrow> \<not> disabled)"

text \<open>\<^verbatim>\<open>getAttribute(..) || ""\<close> and \<^verbatim>\<open>el?.textContent || ""\<close>\<close>

definition orEmpty :: "string option \<Rightarrow> string" where
  "orEmpty t = (case t of None \<Rightarrow> [] | Some s \<Rightarrow> s)"

text \<open>\<^verbatim>\<open>imgEl?.getAttribute("src") || undefined\<close>\<close>

definition imageOf :: "string option option \<Rightarrow> string option" where
  "imageOf el =
     (case el of
        None \<Rightarrow> None
      | Some None \<Rightarrow> None
      | Some (Some src) \<Rightarrow> if src = [] then None else Some src)"

text \<open>\<^verbatim>\<open>text || fallback\<close> on strings: the empty string is falsy.\<close>

definition orDefault :: "string \<Rightarrow> string \<Rightarrow> string" where
  "orDefault s d = (if s = [] then d else s)"

section \<open>The OLX scraper\<close>

definition olxListing :: "card \<Rightarrow> Room list \<Rightarrow> Room list" where
  "olxListing c listings =
     (case linkEl c of
        None \<Rightarrow> listings
      | Some hrefAttr \<Rightarrow>
          let priceText = orEmpty (priceEl c);
              priceMatch = matchDigits (removeSpaces priceText);
              price = map_option parseInt10 priceMatch;
              href = orEmpty hrefAttr
          in if \<not> includes_str href ''/d/'' \<and> \<not> includes_str href ''/oferta/'' then listings
             else
               let fullUrl = (if startsWith href ''http'' then href else ''https://www.olx.pl'' @ href)
               in if (\<exists>l \<in> set listings. url l = fullUrl) then listings
                  else listings @
                    [\<lparr>title = orDefault (orEmpty (map_option trim (titleEl c))) ''Room listing'',
                      price = price,
                      currency = ''PLN'',
                      location =
                        orDefault (orEmpty (map_option (\<lambda>t. trim (splitHead '' - '' t)) (locationEl c)))
                          ''Warszawa'',
                      url = fullUrl,
                      source = Olx,
                      roomType' = None,
                      area = None,
                      imageUrl = imageOf (imgEl c)\<rparr>])"

definition olxExtract :: "page \<Rightarrow> Room list" where
  "olxExtract pg = foldl (\<lambda>listings c. olxListing c listings) [] (selectCards (found pg))"

definition olxPageUrl :: "SearchOptions \<Rightarrow> int \<Rightarrow> string" where
  "olxPageUrl options pageNum =
     (let url = ''https://www.olx.pl/nieruchomosci/stancje-pokoje/warszawa/'';
          params =
            (case maxPrice options of
               None \<Rightarrow> []
             | Some p \<Rightarrow>
                 if p \<noteq> 0 then [''search%5Bfilter_float_price%3Ato%5D='' @ numToString p] else [])
            @ (if pageNum > 1 then [''page='' @ numToString pageNum] else [])
      in if length params > 0 then url @ ''?'' @ joinWith ''&'' params else url)"

text \<open>The \<^verbatim>\<open>Add unique rooms\<close> loop of both scrapers.\<close>

fun addUnique :: "Room list \<Rightarrow> Room list \<Rightarrow> Room list" where
  "addUnique allRooms [] = allRooms"
| "addUnique allRooms (room # rooms) =
     (if (\<exists>r \<in> set allRooms. url r = url room) then addUnique allRooms rooms
      else addUnique (allRooms @ [room]) rooms)"

text \<open>
  The state of a crawl: the rooms accumulated, the URLs navigated to (in order), and the
  error thrown, if any.
\<close>

record crawl =
  allRooms :: "Room list"
  visited :: "string list"
  thrown :: "error option"

function olxPages :: "site \<Rightarrow> SearchOptions \<Rightarrow> int \<Rightarrow> int \<Rightarrow> crawl \<Rightarrow> crawl" where
  "olxPages web options budget pageNum st =
     (if pageNum \<le> budget then
        (let pageUrl = olxPageUrl options pageNum;
             st1 = st\<lparr>visited := visited st @ [pageUrl]\<rparr>
         in case web pageUrl of
              None \<Rightarrow> st1\<lparr>thrown := Some NavigationError\<rparr>
            | Some pg \<Rightarrow>
                (let rooms = olxExtract pg;
                     st2 = st1\<lparr>allRooms := addUnique (allRooms st1) rooms\<rparr>
                 in if \<not> hasNextPage pg then st2
                    else olxPages web options budget (pageNum + 1) st2))
      else st)"
  by pat_completeness auto
termination
  by (relation "measure (\<lambda>(web, options, budget, pageNum, st). nat (budget + 1 - pageNum))") auto

declare olxPages.simps [simp del]

section \<open>The Otodom scraper\<close>

text \<open>The currency marker of the price pattern, matched without regard to case.\<close>

definition startsWithZl :: "string \<Rightarrow> bool" where
  "startsWithZl s =
     (case s of
        z # a # b # rest \<Rightarrow>
          (z = CHR ''z'' \<or> z = CHR ''Z'') \<and> a = CHR 0xC5 \<and> (b = CHR 0x82 \<or> b = CHR 0x81)
      | _ \<Rightarrow> False)"

text \<open>The length of the longest prefix made of digits and white space.\<close>

fun digitSpaceRun :: "string \<Rightarrow> nat" where
  "digitSpaceRun [] = 0"
| "digitSpaceRun (c # cs) =
     (if isDigit c then Suc (digitSpaceRun cs)
      else if spaceAt (c # cs) = 0 then 0
      else spaceAt (c # cs) + digitSpaceRun (drop (spaceAt (c # cs) - 1) cs))"

text \<open>
  Capture group 1 of the first match of the price pattern, a digit followed by digits and
  white space up to the currency marker. The greedy run of digits and white space can only
  end where the marker starts, so the match at a position is decided by the maximal run.
\<close>

fun matchPriceZl :: "string \<Rightarrow> string option" where
  "matchPriceZl [] = None"
| "matchPriceZl (c # cs) =
     (if isDigit c \<and> startsWithZl (drop (digitSpaceRun cs) cs)
      then Some (c # take (digitSpaceRun cs) cs)
      else matchPriceZl cs)"

definition isWordAscii :: "char \<Rightarrow> bool" where
  "isWordAscii c =
     (c \<in> set ''ABCDEFGHIJKLMNOPQRSTUVWXYZabcdefghijklmnopqrstuvwxyz0123456789_-'')"

definition isPolishLetter :: "string \<Rightarrow> bool" where
  "isPolishLetter s = (s \<in> set (map fst polishLower @ map snd polishLower))"

text \<open>The longest prefix made of the characters of the location patterns' class.\<close>

fun wordRun :: "string \<Rightarrow> string" where
  "wordRun [] = []"
| "wordRun [c] = (if isWordAscii c then [c] else [])"
| "wordRun (c # d # cs) =
     (if isWordAscii c then c # wordRun (d # cs)
      else if isPolishLetter [c, d] then c # d # wordRun cs
      else [])"

text \<open>
  Capture group 1 of the first match of a location pattern: the literal (matched without
  regard to case), white space (at least one character of it when \<open>needSpace\<close>), and a
  non-empty run of class characters.
\<close>

fun matchLocation :: "string \<Rightarrow> bool \<Rightarrow> string \<Rightarrow> string option" where
  "matchLocation lit needSpace [] = None"
| "matchLocation lit needSpace (c # cs) =
     (if map lowerAscii (take (length lit) (c # cs)) = lit then
        (let rest = drop (length lit) (c # cs);
             afterSpace = dropStart whiteSpaces rest;
             w = wordRun afterSpace
         in if w \<noteq> [] \<and> (if needSpace then afterSpace \<noteq> rest else True) then Some w
            else matchLocation lit needSpace cs)
      else matchLocation lit needSpace cs)"

definition zl :: string where
  "zl = [CHR ''z'', CHR 0xC5, CHR 0x82]"

text \<open>The loop over the location patterns, on the capture group of each.\<close>

fun pickLocation :: "string option list \<Rightarrow> string" where
  "pickLocation [] = ''Warszawa''"
| "pickLocation (m # ms) =
     (case m of
        None \<Rightarrow> pickLocation ms
      | Some g \<Rightarrow>
          if g \<noteq> [] \<and> \<not> includes_str g zl \<and> \<not> includes_str g ''Cena''
          then ''Warszawa, '' @ g
          else pickLocation ms)"

definition otodomLocation :: "string \<Rightarrow> string" where
  "otodomLocation allContainerText =
     pickLocation
       [matchLocation ''warszawa,'' False allContainerText,
        matchLocation ''warszawa'' True allContainerText]"

definition otodomListing :: "card \<Rightarrow> Room list \<Rightarrow> Room list" where
  "otodomListing c listings =
     (case linkEl c of
        None \<Rightarrow> listings
      | Some hrefAttr \<Rightarrow>
          let href = orEmpty hrefAttr
          in if \<not> includes_str href ''/oferta/'' then listings
             else
               let allContainerText = textContent c;
                   priceMatch = matchPriceZl allContainerText;
                   price = map_option (\<lambda>g. parseInt10 (removeSpaces g)) priceMatch;
                   areaText = orEmpty (areaEl c);
                   area = map_option parseInt10 (matchDigits areaText);
                   fullUrl = (if startsWith href ''http'' then href else ''https://www.otodom.pl'' @ href)
               in if (\<exists>l \<in> set listings. url l = fullUrl) then listings
                  else
                    let title0 = orEmpty (map_option trim (titleEl c));
                        title = (if title0 = [] then ''Room in Warsaw'' else title0)
                    in listings @
                      [\<lparr>title = title,
                        price = price,
                        currency = ''PLN'',
                        location = otodomLocation allContainerText,
                        url = fullUrl,
                        source = Otodom,
                        roomType' = None,
                        area = area,
                        imageUrl = imageOf (imgEl c)\<rparr>])"

definition otodomExtract :: "page \<Rightarrow> Room list" where
  "otodomExtract pg = foldl (\<lambda>listings c. otodomListing c listings) [] (selectCards (found pg))"

definition otodomPageUrl :: "SearchOptions \<Rightarrow> int \<Rightarrow> string" where
  "otodomPageUrl options pageNum =
     (let url = ''https://www.otodom.pl/pl/wyniki/wynajem/pokoj/mazowieckie/warszawa/warszawa/warszawa'';
          params =
            (case maxPrice options of
               None \<Rightarrow> []
             | Some p \<Rightarrow> if p \<noteq> 0 then [''priceMax='' @ numToString p] else [])
            @ (if pageNum > 1 then [''page='' @ numToString pageNum] else [])
      in if length params > 0 then url @ ''?'' @ joinWith ''&'' params else url)"

function otodomPages :: "site \<Rightarrow> SearchOptions \<Rightarrow> int \<Rightarrow> int \<Rightarrow> crawl \<Rightarrow> crawl" where
  "otodomPages web options budget pageNum st =
     (if pageNum \<le> budget then
        (let pageUrl = otodomPageUrl options pageNum;
             st1 = st\<lparr>visited := visited st @ [pageUrl]\<rparr>
         in case web pageUrl of
              None \<Rightarrow> st1\<lparr>thrown := Some NavigationError\<rparr>
            | Some pg \<Rightarrow>
                (let rooms = otodomExtract pg;
                     st2 = st1\<lparr>allRooms := addUnique (allRooms st1) rooms\<rparr>
                 in if \<not> hasNextPage pg \<or> length rooms = 0 then st2
                    else otodomPages web options budget (pageNum + 1) st2))
      else st)"
  by pat_completeness auto
termination
  by (relation "measure (\<lambda>(web, options, budget, pageNum, st). nat (budget + 1 - pageNum))") auto

declare otodomPages.simps [simp del]

section \<open>Filters and the two entry points\<close>

text \<open>
  \<open>getRoomTypeKeywords\<close> stands in both scraper files with the same text. The keywords of
  \<open>shared\<close> that hold Polish letters are written with their UTF-8 bytes.
\<close>

definition getRoomTypeKeywords :: "string \<Rightarrow> string list" where
  "getRoomTypeKeywords t =
     (if t = ''single'' then [''jednoosobowy'', ''1-osobowy'', ''single'', ''dla jednej'']
      else if t = ''shared'' then
        [''wsp'' @ [CHR 0xC3, CHR 0xB3, CHR 0xC5, CHR 0x82] @ ''lokator'',
         ''wsp'' @ [CHR 0xC3, CHR 0xB3, CHR 0xC5, CHR 0x82] @ ''dziel'',
         ''shared'', ''2-osobowy'', ''dwuosobowy'']
      else if t = ''studio'' then [''kawalerka'', ''studio'', ''garsoniera'']
      else if t = ''apartment'' then [''mieszkanie'', ''apartment'', ''flat'']
      else [])"

definition matchesRoomType :: "string list \<Rightarrow> Room \<Rightarrow> bool" where
  "matchesRoomType keywords room =
     (\<exists>kw \<in> set keywords. includes_str (toLowerCase (title room)) kw)"

definition withinPrice :: "int \<Rightarrow> Room \<Rightarrow> bool" where
  "withinPrice p room = (case price room of None \<Rightarrow> True | Some q \<Rightarrow> q \<le> p)"

text \<open>The \<^verbatim>\<open>Apply filters\<close> part of both scrapers; a falsy option skips its filter.\<close>

definition applyFilters :: "SearchOptions \<Rightarrow> Room list \<Rightarrow> Room list" where
  "applyFilters options rooms =
     (let filteredRooms =
            (case roomType options of
               None \<Rightarrow> rooms
             | Some t \<Rightarrow>
                 if t \<noteq> [] then filter (matchesRoomType (getRoomTypeKeywords t)) rooms else rooms)
      in case maxPrice options of
           None \<Rightarrow> filteredRooms
         | Some p \<Rightarrow> if p \<noteq> 0 then filter (withinPrice p) filteredRooms else filteredRooms)"

definition start :: crawl where
  "start = \<lparr>allRooms = [], visited = [], thrown = None\<rparr>"

definition olxCrawl :: "site \<Rightarrow> SearchOptions \<Rightarrow> crawl" where
  "olxCrawl web options = olxPages web options (pagesToScrape options) 1 start"

definition otodomCrawl :: "site \<Rightarrow> SearchOptions \<Rightarrow> crawl" where
  "otodomCrawl web options = otodomPages web options (pagesToScrape options) 1 start"

definition scrapeOlx :: "site \<Rightarrow> SearchOptions \<Rightarrow> error + Room list" where
  "scrapeOlx web options =
     (let st = olxCrawl web options
      in case thrown st of
           Some e \<Rightarrow> Inl e
         | None \<Rightarrow> Inr (applyFilters options (allRooms st)))"

definition scrapeOtodom :: "site \<Rightarrow> SearchOptions \<Rightarrow> error + Room list" where
  "scrapeOtodom web options =
     (let st = otodomCrawl web options
      in case thrown st of
           Some e \<Rightarrow> Inl e
         | None \<Rightarrow> Inr (applyFilters options (allRooms st)))"

section \<open>The aggregation of main\<close>

definition compareRooms :: "Room \<Rightarrow> Room \<Rightarrow> int" where
  "compareRooms a b =
     (case price a of
        None \<Rightarrow> 1
      | Some pa \<Rightarrow> (case price b of None \<Rightarrow> - 1 | Some pb \<Rightarrow> pa - pb))"

text \<open>
  \<^verbatim>\<open>Array.prototype.sort\<close> is the engine's, not the repository's. The program runs on Bun,
  whose engine sorts by a bottom-up merge sort: runs of width 1, 2, 4, ... are merged in
  pairs, and a merge takes the head of the right run before the head of the left run only
  when the comparator, called on (right, left), returns a negative number.
\<close>

fun sortMerge :: "('a \<Rightarrow> 'a \<Rightarrow> int) \<Rightarrow> 'a list \<Rightarrow> 'a list \<Rightarrow> 'a list" where
  "sortMerge cmp [] rs = rs"
| "sortMerge cmp (l # ls) [] = l # ls"
| "sortMerge cmp (l # ls) (r # rs) =
     (if cmp r l < 0 then r # sortMerge cmp (l # ls) rs else l # sortMerge cmp ls (r # rs))"

fun mergePass :: "('a \<Rightarrow> 'a \<Rightarrow> int) \<Rightarrow> 'a list list \<Rightarrow> 'a list list" where
  "mergePass cmp (a # b # runs) = sortMerge cmp a b # mergePass cmp runs"
| "mergePass cmp runs = runs"

function mergeRuns :: "('a \<Rightarrow> 'a \<Rightarrow> int) \<Rightarrow> 'a list list \<Rightarrow> 'a list" where
  "mergeRuns cmp [] = []"
| "mergeRuns cmp [a] = a"
| "mergeRuns cmp (a # b # runs) = mergeRuns cmp (mergePass cmp (a # b # runs))"
  by pat_completeness auto
termination
proof (relation "measure (\<lambda>(cmp, runs). length runs)")
  show "wf (measure (\<lambda>(cmp :: 'a \<Rightarrow> 'a \<Rightarrow> int, runs :: 'a list list). length runs))"
    by simp
next
  fix cmp :: "'a \<Rightarrow> 'a \<Rightarrow> int" and a b :: "'a list" and runs :: "'a list list"
  have "length (mergePass cmp xs) = (length xs + 1) div 2" for xs :: "'a list list"
    by (induction cmp xs rule: mergePass.induct) simp_all
  then show "((cmp, mergePass cmp (a # b # runs)), (cmp, a # b # runs))
      \<in> measure (\<lambda>(cmp, runs). length runs)"
    by simp
qed

definition arraySort :: "('a \<Rightarrow> 'a \<Rightarrow> int) \<Rightarrow> 'a list \<Rightarrow> 'a list" where
  "arraySort cmp xs = mergeRuns cmp (map (\<lambda>x. [x]) xs)"

definition sortRooms :: "Room list \<Rightarrow> Room list" where
  "sortRooms rooms = arraySort compareRooms rooms"

text \<open>
  \<open>main\<close>: the scrapers the (lower-cased) source option selects, OLX first, their results
  appended and sorted. An error of a scraper ends the program.
\<close>

definition mainRooms :: "site \<Rightarrow> site \<Rightarrow> string \<Rightarrow> SearchOptions \<Rightarrow> error + Room list" where
  "mainRooms olxWeb otodomWeb src options =
     (case (if src = ''all'' \<or> src = ''olx'' then scrapeOlx olxWeb options else Inr []) of
        Inl e \<Rightarrow> Inl e
      | Inr olxRooms \<Rightarrow>
          (case (if src = ''all'' \<or> src = ''otodom'' then scrapeOtodom otodomWeb options else Inr []) of
             Inl e \<Rightarrow> Inl e
           | Inr otodomRooms \<Rightarrow> Inr (sortRooms (olxRooms @ otodomRooms))))"

text \<open>
  The rank the comparator sorts by: a listing with a price before one without, and two
  with a price by the price.
\<close>

definition priceKey :: "Room \<Rightarrow> nat \<times> int" where
  "priceKey r = (case price r of None \<Rightarrow> (1, 0) | Some p \<Rightarrow> (0, p))"

text \<open>The order the specification asks of the output: ascending, absent prices last.\<close>

fun nullsLastLe :: "int option \<Rightarrow> int option \<Rightarrow> bool" where
  "nullsLastLe p None = True"
| "nullsLastLe None (Some q) = False"
| "nullsLastLe (Some p) (Some q) = (p \<le> q)"

section \<open>Specification-side notions\<close>

text \<open>
  First-seen deduplication, as the specification words it: of the records that share a url
  only the first stays, and the records that stay keep their order.
\<close>

fun firstSeen :: "Room list \<Rightarrow> Room list" where
  "firstSeen [] = []"
| "firstSeen (r # rs) = r # firstSeen (filter (\<lambda>x. url x \<noteq> url r) rs)"

text \<open>What the extraction of a scraper yields at a URL; nothing when the navigation throws.\<close>

definition olxRoomsAt :: "site \<Rightarrow> string \<Rightarrow> Room list" where
  "olxRoomsAt web u = (case web u of None \<Rightarrow> [] | Some pg \<Rightarrow> olxExtract pg)"

definition otodomRoomsAt :: "site \<Rightarrow> string \<Rightarrow> Room list" where
  "otodomRoomsAt web u = (case web u of None \<Rightarrow> [] | Some pg \<Rightarrow> otodomExtract pg)"

section \<open>Example pages and requests\<close>

definition cardA :: card where
  "cardA =
     \<lparr>linkEl = Some (Some ''/d/oferta/a1''),
      titleEl = Some ('' Pokoj Single'' @ [CHR 0xC2, CHR 0xA0]),
      priceEl = Some (''1'' @ [CHR 0xC2, CHR 0xA0] @ ''500 z'' @ [CHR 0xC5, CHR 0x82]),
      locationEl = Some ''Wola - dzis'',
      areaEl = Some ''12 m2'',
      imgEl = Some (Some ''/img/a.jpg''),
      textContent =
        ''Warszawa, Wola 1'' @ [CHR 0xC2, CHR 0xA0] @ ''500'' @ [CHR 0xC2, CHR 0xA0] @ ''z'' @
        [CHR 0xC5, CHR 0x82]\<rparr>"

definition cardB :: card where
  "cardB =
     \<lparr>linkEl = Some (Some ''https://www.otodom.pl/pl/oferta/b2''),
      titleEl = None,
      priceEl = None,
      locationEl = None,
      areaEl = None,
      imgEl = None,
      textContent = []\<rparr>"

text \<open>A page of two cards (the second selector finds them, one twice) with a next button.\<close>

definition pageAB :: page where
  "pageAB = \<lparr>found = [[], [cardA, cardB, cardA]], nextBtn = Some False\<rparr>"

text \<open>A site that answers every URL with that page: its next button never goes away.\<close>

definition endlessSite :: site where
  "endlessSite u = Some pageAB"

text \<open>What the two scrapers make of that page.\<close>

definition olxA :: Room where
  "olxA =
     \<lparr>title = ''Pokoj Single'', price = Some 1500, currency = ''PLN'', location = ''Wola'',
      url = ''https://www.olx.pl/d/oferta/a1'', source = Olx, roomType' = None, area = None,
      imageUrl = Some ''/img/a.jpg''\<rparr>"

definition olxB :: Room where
  "olxB =
     \<lparr>title = ''Room listing'', price = None, currency = ''PLN'', location = ''Warszawa'',
      url = ''https://www.otodom.pl/pl/oferta/b2'', source = Olx, roomType' = None, area = None,
      imageUrl = None\<rparr>"

definition otodomA :: Room where
  "otodomA =
     \<lparr>title = ''Pokoj Single'', price = Some 1500, currency = ''PLN'',
      location = ''Warszawa, Wola'', url = ''https://www.otodom.pl/d/oferta/a1'',
      source = Otodom, roomType' = None, area = Some 12, imageUrl = Some ''/img/a.jpg''\<rparr>"

definition otodomB :: Room where
  "otodomB =
     \<lparr>title = ''Room in Warsaw'', price = None, currency = ''PLN'', location = ''Warszawa'',
      url = ''https://www.otodom.pl/pl/oferta/b2'', source = Otodom, roomType' = None,
      area = None, imageUrl = None\<rparr>"

definition request :: "int option \<Rightarrow> string option \<Rightarrow> int option \<Rightarrow> SearchOptions" where
  "request p t n = \<lparr>maxPrice = p, roomType = t, district = None, pages = n\<rparr>"

section \<open>Lemmas on the crawl loops\<close>

lemma addUnique_append: "addUnique acc (xs @ ys) = addUnique (addUnique acc xs) ys"
  by (induction xs arbitrary: acc) simp_all

lemma addUnique_firstSeen:
  "addUnique acc rs = acc @ firstSeen (filter (\<lambda>r. url r \<notin> url ` set acc) rs)"
proof (induction rs arbitrary: acc)
  case Nil
  then show ?case by simp
next
  case (Cons r rs)
  show ?case
  proof (cases "\<exists>x \<in> set acc. url x = url r")
    case True
    then have "url r \<in> url ` set acc" by (metis image_eqI)
    with True Cons show ?thesis by simp
  next
    case False
    then have notin: "url r \<notin> url ` set acc" by auto
    have eq: "filter (\<lambda>x. url x \<noteq> url r \<and> url x \<notin> url ` set acc) rs
        = filter (\<lambda>x. url x \<notin> url ` set acc \<and> url x \<noteq> url r) rs"
      by (rule filter_cong) auto
    from False notin show ?thesis
      by (simp add: Cons.IH eq)
  qed
qed

lemma set_firstSeen: "set (firstSeen rs) \<subseteq> set rs"
  by (induction rs rule: firstSeen.induct) auto

lemma distinct_firstSeen: "distinct (map url (firstSeen rs))"
proof (induction rs rule: firstSeen.induct)
  case 1
  then show ?case by simp
next
  case (2 r rs)
  have "url r \<notin> url ` set (firstSeen (filter (\<lambda>x. url x \<noteq> url r) rs))"
    using set_firstSeen [of "filter (\<lambda>x. url x \<noteq> url r) rs"] by auto
  with 2 show ?case by simp
qed

lemma olxPages_stop:
  "\<not> pageNum \<le> budget \<Longrightarrow> olxPages web options budget pageNum st = st"
  by (subst olxPages.simps) simp

lemma olxPages_fail:
  "pageNum \<le> budget \<Longrightarrow> web (olxPageUrl options pageNum) = None \<Longrightarrow>
   olxPages web options budget pageNum st
     = st\<lparr>visited := visited st @ [olxPageUrl options pageNum], thrown := Some NavigationError\<rparr>"
  by (subst olxPages.simps) (simp add: Let_def)

lemma olxPages_last:
  "pageNum \<le> budget \<Longrightarrow> web (olxPageUrl options pageNum) = Some pg \<Longrightarrow> \<not> (hasNextPage pg) \<Longrightarrow>
   olxPages web options budget pageNum st
     = st\<lparr>visited := visited st @ [olxPageUrl options pageNum],
          allRooms := addUnique (allRooms st) (olxExtract pg)\<rparr>"
  by (subst olxPages.simps) (simp add: Let_def)

lemma olxPages_next:
  "pageNum \<le> budget \<Longrightarrow> web (olxPageUrl options pageNum) = Some pg \<Longrightarrow> hasNextPage pg \<Longrightarrow>
   olxPages web options budget pageNum st
     = olxPages web options budget (pageNum + 1)
         (st\<lparr>visited := visited st @ [olxPageUrl options pageNum],
             allRooms := addUnique (allRooms st) (olxExtract pg)\<rparr>)"
  by (subst olxPages.simps) (simp add: Let_def)

lemma olxPages_visited_le:
  "length (visited (olxPages web options budget pageNum st))
     \<le> length (visited st) + nat (budget + 1 - pageNum)"
proof (induction "nat (budget + 1 - pageNum)" arbitrary: pageNum st)
  case 0
  then have "\<not> pageNum \<le> budget" by simp
  then show ?case by (simp add: olxPages_stop)
next
  case (Suc n)
  then have le: "pageNum \<le> budget" and n: "n = nat (budget + 1 - (pageNum + 1))"
    by simp_all
  show ?case
  proof (cases "web (olxPageUrl options pageNum)")
    case None
    with le show ?thesis by (simp add: olxPages_fail)
  next
    case (Some pg)
    show ?thesis
    proof (cases "hasNextPage pg")
      case False
      with le Some show ?thesis by (simp add: olxPages_last)
    next
      case True
      let ?st2 = "st\<lparr>visited := visited st @ [olxPageUrl options pageNum],
                      allRooms := addUnique (allRooms st) (olxExtract pg)\<rparr>"
      have "length (visited (olxPages web options budget (pageNum + 1) ?st2))
          \<le> length (visited ?st2) + nat (budget + 1 - (pageNum + 1))"
        using n by (rule Suc.hyps(1))
      also have "\<dots> = length (visited st) + nat (budget + 1 - pageNum)"
        using le by simp
      finally show ?thesis
        by (simp add: olxPages_next [where web = web and options = options and pageNum = pageNum and budget = budget and pg = pg, OF le Some True])
    qed
  qed
qed

lemma olxPages_trace:
  "\<exists>vs. visited (olxPages web options budget pageNum st) = visited st @ vs \<and>
        allRooms (olxPages web options budget pageNum st)
          = addUnique (allRooms st) (concat (map (olxRoomsAt web) vs))"
proof (induction "nat (budget + 1 - pageNum)" arbitrary: pageNum st)
  case 0
  then have "\<not> pageNum \<le> budget" by simp
  then show ?case by (simp add: olxPages_stop)
next
  case (Suc n)
  then have le: "pageNum \<le> budget" and n: "n = nat (budget + 1 - (pageNum + 1))"
    by simp_all
  let ?u = "olxPageUrl options pageNum"
  show ?case
  proof (cases "web ?u")
    case None
    then have "olxRoomsAt web ?u = []" by (simp add: olxRoomsAt_def)
    with le None show ?thesis
      by (intro exI [of _ "[?u]"]) (simp add: olxPages_fail)
  next
    case (Some pg)
    then have at: "olxRoomsAt web ?u = olxExtract pg" by (simp add: olxRoomsAt_def)
    show ?thesis
    proof (cases "hasNextPage pg")
      case False
      with le Some at show ?thesis
        by (intro exI [of _ "[?u]"]) (simp add: olxPages_last)
    next
      case True
      let ?st2 = "st\<lparr>visited := visited st @ [?u],
                      allRooms := addUnique (allRooms st) (olxExtract pg)\<rparr>"
      obtain vs where vs:
        "visited (olxPages web options budget (pageNum + 1) ?st2) = visited ?st2 @ vs"
        "allRooms (olxPages web options budget (pageNum + 1) ?st2)
           = addUnique (allRooms ?st2) (concat (map (olxRoomsAt web) vs))"
        using Suc.hyps(1) [OF n, of ?st2] by blast
      show ?thesis
        by (intro exI [of _ "?u # vs"])
          (simp add: olxPages_next [where web = web and options = options and pageNum = pageNum and budget = budget and pg = pg, OF le Some True] vs at addUnique_append)
    qed
  qed
qed

lemma olxPages_visited_ge:
  assumes "pageNum \<le> budget"
  shows "length (visited st) < length (visited (olxPages web options budget pageNum st))"
proof (cases "web (olxPageUrl options pageNum)")
  case None
  with assms show ?thesis by (simp add: olxPages_fail)
next
  case (Some pg)
  show ?thesis
  proof (cases "hasNextPage pg")
    case False
    with assms Some show ?thesis by (simp add: olxPages_last)
  next
    case True
    let ?st2 = "st\<lparr>visited := visited st @ [olxPageUrl options pageNum],
                    allRooms := addUnique (allRooms st) (olxExtract pg)\<rparr>"
    obtain vs where
      "visited (olxPages web options budget (pageNum + 1) ?st2) = visited ?st2 @ vs"
      using olxPages_trace by blast
    then show ?thesis
      by (simp add: olxPages_next [where web = web and options = options and pageNum = pageNum and budget = budget and pg = pg, OF assms Some True])
  qed
qed

lemma olxPages_visited_all:
  assumes "\<And>u. \<exists>pg. web u = Some pg \<and> hasNextPage pg"
  shows "length (visited (olxPages web options budget pageNum st))
     = length (visited st) + nat (budget + 1 - pageNum)"
proof (induction "nat (budget + 1 - pageNum)" arbitrary: pageNum st)
  case 0
  then have "\<not> pageNum \<le> budget" by simp
  then show ?case by (simp add: olxPages_stop)
next
  case (Suc n)
  then have le: "pageNum \<le> budget" and n: "n = nat (budget + 1 - (pageNum + 1))"
    by simp_all
  obtain pg where pg: "web (olxPageUrl options pageNum) = Some pg" "hasNextPage pg"
    using assms by blast
  let ?st2 = "st\<lparr>visited := visited st @ [olxPageUrl options pageNum],
                  allRooms := addUnique (allRooms st) (olxExtract pg)\<rparr>"
  have "length (visited (olxPages web options budget (pageNum + 1) ?st2))
      = length (visited ?st2) + nat (budget + 1 - (pageNum + 1))"
    using n by (rule Suc.hyps(1))
  also have "\<dots> = length (visited st) + nat (budget + 1 - pageNum)"
    using le by simp
  finally show ?case
    by (simp add: olxPages_next [where web = web and options = options and pageNum = pageNum and budget = budget and pg = pg, OF le pg])
qed

lemma otodomPages_stop:
  "\<not> pageNum \<le> budget \<Longrightarrow> otodomPages web options budget pageNum st = st"
  by (subst otodomPages.simps) simp

lemma otodomPages_fail:
  "pageNum \<le> budget \<Longrightarrow> web (otodomPageUrl options pageNum) = None \<Longrightarrow>
   otodomPages web options budget pageNum st
     = st\<lparr>visited := visited st @ [otodomPageUrl options pageNum], thrown := Some NavigationError\<rparr>"
  by (subst otodomPages.simps) (simp add: Let_def)

lemma otodomPages_last:
  "pageNum \<le> budget \<Longrightarrow> web (otodomPageUrl options pageNum) = Some pg \<Longrightarrow> \<not> (hasNextPage pg \<and> otodomExtract pg \<noteq> []) \<Longrightarrow>
   otodomPages web options budget pageNum st
     = st\<lparr>visited := visited st @ [otodomPageUrl options pageNum],
          allRooms := addUnique (allRooms st) (otodomExtract pg)\<rparr>"
  by (subst otodomPages.simps) (simp add: Let_def)

lemma otodomPages_next:
  "pageNum \<le> budget \<Longrightarrow> web (otodomPageUrl options pageNum) = Some pg \<Longrightarrow> hasNextPage pg \<and> otodomExtract pg \<noteq> [] \<Longrightarrow>
   otodomPages web options budget pageNum st
     = otodomPages web options budget (pageNum + 1)
         (st\<lparr>visited := visited st @ [otodomPageUrl options pageNum],
             allRooms := addUnique (allRooms st) (otodomExtract pg)\<rparr>)"
  by (subst otodomPages.simps) (simp add: Let_def)

lemma otodomPages_visited_le:
  "length (visited (otodomPages web options budget pageNum st))
     \<le> length (visited st) + nat (budget + 1 - pageNum)"
proof (induction "nat (budget + 1 - pageNum)" arbitrary: pageNum st)
  case 0
  then have "\<not> pageNum \<le> budget" by simp
  then show ?case by (simp add: otodomPages_stop)
next
  case (Suc n)
  then have le: "pageNum \<le> budget" and n: "n = nat (budget + 1 - (pageNum + 1))"
    by simp_all
  show ?case
  proof (cases "web (otodomPageUrl options pageNum)")
    case None
    with le show ?thesis by (simp add: otodomPages_fail)
  next
    case (Some pg)
    show ?thesis
    proof (cases "hasNextPage pg \<and> otodomExtract pg \<noteq> []")
      case False
      with le Some show ?thesis by (simp add: otodomPages_last)
    next
      case True
      let ?st2 = "st\<lparr>visited := visited st @ [otodomPageUrl options pageNum],
                      allRooms := addUnique (allRooms st) (otodomExtract pg)\<rparr>"
      have "length (visited (otodomPages web options budget (pageNum + 1) ?st2))
          \<le> length (visited ?st2) + nat (budget + 1 - (pageNum + 1))"
        using n by (rule Suc.hyps(1))
      also have "\<dots> = length (visited st) + nat (budget + 1 - pageNum)"
        using le by simp
      finally show ?thesis
        by (simp add: otodomPages_next [where web = web and options = options and pageNum = pageNum and budget = budget and pg = pg, OF le Some True])
    qed
  qed
qed

lemma otodomPages_trace:
  "\<exists>vs. visited (otodomPages web options budget pageNum st) = visited st @ vs \<and>
        allRooms (otodomPages web options budget pageNum st)
          = addUnique (allRooms st) (concat (map (otodomRoomsAt web) vs))"
proof (induction "nat (budget + 1 - pageNum)" arbitrary: pageNum st)
  case 0
  then have "\<not> pageNum \<le> budget" by simp
  then show ?case by (simp add: otodomPages_stop)
next
  case (Suc n)
  then have le: "pageNum \<le> budget" and n: "n = nat (budget + 1 - (pageNum + 1))"
    by simp_all
  let ?u = "otodomPageUrl options pageNum"
  show ?case
  proof (cases "web ?u")
    case None
    then have "otodomRoomsAt web ?u = []" by (simp add: otodomRoomsAt_def)
    with le None show ?thesis
      by (intro exI [of _ "[?u]"]) (simp add: otodomPages_fail)
  next
    case (Some pg)
    then have at: "otodomRoomsAt web ?u = otodomExtract pg" by (simp add: otodomRoomsAt_def)
    show ?thesis
    proof (cases "hasNextPage pg \<and> otodomExtract pg \<noteq> []")
      case False
      with le Some at show ?thesis
        by (intro exI [of _ "[?u]"]) (simp add: otodomPages_last)
    next
      case True
      let ?st2 = "st\<lparr>visited := visited st @ [?u],
                      allRooms := addUnique (allRooms st) (otodomExtract pg)\<rparr>"
      obtain vs where vs:
        "visited (otodomPages web options budget (pageNum + 1) ?st2) = visited ?st2 @ vs"
        "allRooms (otodomPages web options budget (pageNum + 1) ?st2)
           = addUnique (allRooms ?st2) (concat (map (otodomRoomsAt web) vs))"
        using Suc.hyps(1) [OF n, of ?st2] by blast
      show ?thesis
        by (intro exI [of _ "?u # vs"])
          (simp add: otodomPages_next [where web = web and options = options and pageNum = pageNum and budget = budget and pg = pg, OF le Some True] vs at addUnique_append)
    qed
  qed
qed

lemma otodomPages_visited_ge:
  assumes "pageNum \<le> budget"
  shows "length (visited st) < length (visited (otodomPages web options budget pageNum st))"
proof (cases "web (otodomPageUrl options pageNum)")
  case None
  with assms show ?thesis by (simp add: otodomPages_fail)
next
  case (Some pg)
  show ?thesis
  proof (cases "hasNextPage pg \<and> otodomExtract pg \<noteq> []")
    case False
    with assms Some show ?thesis by (simp add: otodomPages_last)
  next
    case True
    let ?st2 = "st\<lparr>visited := visited st @ [otodomPageUrl options pageNum],
                    allRooms := addUnique (allRooms st) (otodomExtract pg)\<rparr>"
    obtain vs where
      "visited (otodomPages web options budget (pageNum + 1) ?st2) = visited ?st2 @ vs"
      using otodomPages_trace by blast
    then show ?thesis
      by (simp add: otodomPages_next [where web = web and options = options and pageNum = pageNum and budget = budget and pg = pg, OF assms Some True])
  qed
qed

lemma otodomPages_visited_all:
  assumes "\<And>u. \<exists>pg. web u = Some pg \<and> hasNextPage pg \<and> otodomExtract pg \<noteq> []"
  shows "length (visited (otodomPages web options budget pageNum st))
     = length (visited st) + nat (budget + 1 - pageNum)"
proof (induction "nat (budget + 1 - pageNum)" arbitrary: pageNum st)
  case 0
  then have "\<not> pageNum \<le> budget" by simp
  then show ?case by (simp add: otodomPages_stop)
next
  case (Suc n)
  then have le: "pageNum \<le> budget" and n: "n = nat (budget + 1 - (pageNum + 1))"
    by simp_all
  obtain pg where pg: "web (otodomPageUrl options pageNum) = Some pg" "hasNextPage pg \<and> otodomExtract pg \<noteq> []"
    using assms by blast
  let ?st2 = "st\<lparr>visited := visited st @ [otodomPageUrl options pageNum],
                  allRooms := addUnique (allRooms st) (otodomExtract pg)\<rparr>"
  have "length (visited (otodomPages web options budget (pageNum + 1) ?st2))
      = length (visited ?st2) + nat (budget + 1 - (pageNum + 1))"
    using n by (rule Suc.hyps(1))
  also have "\<dots> = length (visited st) + nat (budget + 1 - pageNum)"
    using le by simp
  finally show ?case
    by (simp add: otodomPages_next [where web = web and options = options and pageNum = pageNum and budget = budget and pg = pg, OF le pg])
qed

lemma pagesToScrape_le: "pagesToScrape options \<le> 10"
  by (simp add: pagesToScrape_def MAX_PAGES_def)

lemma pagesToScrape_ge:
  assumes "pages options = None \<or> (\<exists>n. pages options = Some n \<and> 0 \<le> n)"
  shows "1 \<le> pagesToScrape options"
  using assms by (auto simp: pagesToScrape_def MAX_PAGES_def)

section \<open>The page budget\<close>

text \<open>
  C3, as the code has it. The budget is \<^verbatim>\<open>Math.min(options.pages || 5, 10)\<close>. For every
  request it is at most 10, and no crawl makes more than 10 iterations. When \<open>pages\<close> is
  absent, zero or positive, the budget lies in the range 1 to 10 and the loop of each
  scraper runs at least once. (The number of iterations is the number of URLs visited: an
  iteration navigates once.)
\<close>

theorem page_budget_resolved:
  "pagesToScrape options \<le> 10 \<and>
   length (visited (olxCrawl web options)) \<le> 10 \<and>
   length (visited (otodomCrawl web options)) \<le> 10 \<and>
   (pages options = None \<or> (\<exists>n. pages options = Some n \<and> 0 \<le> n) \<longrightarrow>
      1 \<le> pagesToScrape options \<and>
      1 \<le> length (visited (olxCrawl web options)) \<and>
      1 \<le> length (visited (otodomCrawl web options)))"
proof -
  have hi: "pagesToScrape options \<le> 10"
    by (rule pagesToScrape_le)
  have "length (visited (olxCrawl web options)) \<le> nat (pagesToScrape options)"
    using olxPages_visited_le [of web options "pagesToScrape options" 1 start]
    by (simp add: olxCrawl_def start_def)
  with hi have a: "length (visited (olxCrawl web options)) \<le> 10" by linarith
  have "length (visited (otodomCrawl web options)) \<le> nat (pagesToScrape options)"
    using otodomPages_visited_le [of web options "pagesToScrape options" 1 start]
    by (simp add: otodomCrawl_def start_def)
  with hi have b: "length (visited (otodomCrawl web options)) \<le> 10" by linarith
  have lower: "1 \<le> pagesToScrape options \<and>
      1 \<le> length (visited (olxCrawl web options)) \<and>
      1 \<le> length (visited (otodomCrawl web options))"
    if h: "pages options = None \<or> (\<exists>n. pages options = Some n \<and> 0 \<le> n)"
  proof -
    have lo: "1 \<le> pagesToScrape options"
      using h by (rule pagesToScrape_ge)
    have c: "1 \<le> length (visited (olxCrawl web options))"
      using olxPages_visited_ge [OF lo, of start web options]
      by (simp add: olxCrawl_def start_def Suc_le_eq)
    have d: "1 \<le> length (visited (otodomCrawl web options))"
      using otodomPages_visited_ge [OF lo, of start web options]
      by (simp add: otodomCrawl_def start_def Suc_le_eq)
    from lo c d show ?thesis by simp
  qed
  from hi a b lower show ?thesis by blast
qed

text \<open>
  A request for 25 pages is cut to 10 and the crawl runs; a request for \<open>- 3\<close> pages stays
  within the upper bound.
\<close>

theorem page_budget_resolved_witness:
  "pagesToScrape (request None None (Some 0)) = 5 \<and>
   pagesToScrape (request None None (Some 25)) = 10 \<and>
   1 \<le> length (visited (olxCrawl endlessSite (request None None (Some 25)))) \<and>
   length (visited (olxCrawl endlessSite (request None None (Some 25)))) \<le> 10 \<and>
   1 \<le> length (visited (otodomCrawl endlessSite (request None None (Some 25)))) \<and>
   length (visited (otodomCrawl endlessSite (request None None (Some 25)))) \<le> 10 \<and>
   pagesToScrape (request None None (Some (- 3))) \<le> 10 \<and>
   length (visited (olxCrawl endlessSite (request None None (Some (- 3))))) \<le> 10"
proof -
  have h: "pages (request None None (Some 25)) = None \<or>
      (\<exists>n. pages (request None None (Some 25)) = Some n \<and> 0 \<le> n)"
    by (simp add: request_def)
  have v: "pagesToScrape (request None None (Some 0)) = 5"
    "pagesToScrape (request None None (Some 25)) = 10"
    by (simp_all add: pagesToScrape_def MAX_PAGES_def request_def)
  from h v
    page_budget_resolved [of "request None None (Some 25)" endlessSite]
    page_budget_resolved [of "request None None (Some (- 3))" endlessSite]
  show ?thesis by blast
qed

text \<open>
  The claim as written fails for a negative \<open>pages\<close>: the budget is the negative number
  and neither loop runs.
\<close>

theorem page_budget_negative_counterexample:
  "pagesToScrape (request None None (Some (- 3))) = - 3 \<and>
   \<not> 1 \<le> pagesToScrape (request None None (Some (- 3))) \<and>
   visited (olxCrawl endlessSite (request None None (Some (- 3)))) = [] \<and>
   visited (otodomCrawl endlessSite (request None None (Some (- 3)))) = []"
  by (simp add: pagesToScrape_def MAX_PAGES_def request_def olxCrawl_def otodomCrawl_def
      start_def olxPages.simps otodomPages.simps)

text \<open>
  C5. Whatever the site answers, and so whatever \<open>hasNextPage\<close> returns, a crawl with
  budget \<open>K\<close> navigates at most \<open>K\<close> times (not at all when \<open>K\<close> is not positive); both
  loops are total functions, so a crawl always ends. The bound is reached: on a site whose
  pages all have a next button (and, for Otodom, at least one listing) a crawl with budget
  \<open>K\<close> navigates exactly \<open>K\<close> times.
\<close>

theorem fetches_within_budget:
  "length (visited (olxPages web options K 1 start)) \<le> nat K \<and>
   length (visited (otodomPages web options K 1 start)) \<le> nat K \<and>
   length (visited (olxCrawl web options)) \<le> nat (pagesToScrape options) \<and>
   length (visited (otodomCrawl web options)) \<le> nat (pagesToScrape options) \<and>
   ((\<forall>u. \<exists>pg. web u = Some pg \<and> hasNextPage pg) \<longrightarrow>
      length (visited (olxPages web options K 1 start)) = nat K) \<and>
   ((\<forall>u. \<exists>pg. web u = Some pg \<and> hasNextPage pg \<and> otodomExtract pg \<noteq> []) \<longrightarrow>
      length (visited (otodomPages web options K 1 start)) = nat K)"
proof -
  have a: "length (visited (olxPages web options k 1 start)) \<le> nat k" for k
    using olxPages_visited_le [of web options k 1 start] by (simp add: start_def)
  have b: "length (visited (otodomPages web options k 1 start)) \<le> nat k" for k
    using otodomPages_visited_le [of web options k 1 start] by (simp add: start_def)
  have c: "length (visited (olxPages web options K 1 start)) = nat K"
    if "\<forall>u. \<exists>pg. web u = Some pg \<and> hasNextPage pg"
    using olxPages_visited_all [of web options K 1 start] that by (simp add: start_def)
  have d: "length (visited (otodomPages web options K 1 start)) = nat K"
    if "\<forall>u. \<exists>pg. web u = Some pg \<and> hasNextPage pg \<and> otodomExtract pg \<noteq> []"
    using otodomPages_visited_all [of web options K 1 start] that by (simp add: start_def)
  from a b c d show ?thesis
    by (simp add: olxCrawl_def otodomCrawl_def)
qed

theorem fetches_within_budget_witness:
  "length (visited (olxPages endlessSite (request None None None) 3 1 start)) = 3 \<and>
   length (visited (otodomPages endlessSite (request None None None) 3 1 start)) = 3 \<and>
   length (visited (olxCrawl endlessSite (request None None None))) \<le> 5"
proof -
  have next_btn: "hasNextPage pageAB"
    by (simp add: hasNextPage_def pageAB_def)
  have rooms: "otodomExtract pageAB \<noteq> []"
    by code_simp
  have h1: "\<forall>u. \<exists>pg. endlessSite u = Some pg \<and> hasNextPage pg"
    using next_btn by (simp add: endlessSite_def)
  have h2: "\<forall>u. \<exists>pg. endlessSite u = Some pg \<and> hasNextPage pg \<and> otodomExtract pg \<noteq> []"
    using next_btn rooms by (simp add: endlessSite_def)
  have five: "pagesToScrape (request None None None) = 5"
    by (simp add: pagesToScrape_def MAX_PAGES_def request_def)
  show ?thesis
    using fetches_within_budget [of endlessSite "request None None None" 3] h1 h2 five
    by simp
qed

section \<open>Lemmas on extraction, filters and the example site\<close>

lemma scrapeOlx_Inr:
  "scrapeOlx web options = Inr rooms \<Longrightarrow> rooms = applyFilters options (allRooms (olxCrawl web options))"
  by (auto simp: scrapeOlx_def Let_def split: option.splits)

lemma scrapeOtodom_Inr:
  "scrapeOtodom web options = Inr rooms \<Longrightarrow> rooms = applyFilters options (allRooms (otodomCrawl web options))"
  by (auto simp: scrapeOtodom_def Let_def split: option.splits)

lemma applyFilters_filter: "\<exists>P. applyFilters options rooms = filter P rooms"
  unfolding applyFilters_def Let_def
  by (auto split: option.splits intro: exI [of _ "\<lambda>r. True"])

lemma set_applyFilters: "set (applyFilters options rooms) \<subseteq> set rooms"
  using applyFilters_filter [of options rooms] by auto

lemma subseq_applyFilters: "subseq (applyFilters options rooms) rooms"
  using applyFilters_filter [of options rooms] by (auto simp: subseq_filter_left)

lemma distinct_applyFilters:
  "distinct (map url rooms) \<Longrightarrow> distinct (map url (applyFilters options rooms))"
  using applyFilters_filter [of options rooms] by (auto simp: distinct_map_filter)

lemma olxCrawl_allRooms:
  "allRooms (olxCrawl web options)
     = firstSeen (concat (map (olxRoomsAt web) (visited (olxCrawl web options))))"
  using olxPages_trace [of web options "pagesToScrape options" 1 start]
  by (auto simp: olxCrawl_def start_def addUnique_firstSeen)

lemma otodomCrawl_allRooms:
  "allRooms (otodomCrawl web options)
     = firstSeen (concat (map (otodomRoomsAt web) (visited (otodomCrawl web options))))"
  using otodomPages_trace [of web options "pagesToScrape options" 1 start]
  by (auto simp: otodomCrawl_def start_def addUnique_firstSeen)

lemma olxListing_cases:
  "olxListing c listings = listings \<or>
   (\<exists>r. olxListing c listings = listings @ [r] \<and>
        title r = orDefault (orEmpty (map_option trim (titleEl c))) ''Room listing'' \<and>
        location r =
          orDefault (orEmpty (map_option (\<lambda>t. trim (splitHead '' - '' t)) (locationEl c))) ''Warszawa'' \<and>
        imageUrl r = imageOf (imgEl c) \<and> source r = Olx \<and> (\<forall>l \<in> set listings. url l \<noteq> url r))"
  by (auto simp: olxListing_def Let_def split: option.splits)

lemma otodomListing_cases:
  "otodomListing c listings = listings \<or>
   (\<exists>r. otodomListing c listings = listings @ [r] \<and>
        title r = orDefault (orEmpty (map_option trim (titleEl c))) ''Room in Warsaw'' \<and>
        location r = otodomLocation (textContent c) \<and>
        imageUrl r = imageOf (imgEl c) \<and> source r = Otodom \<and> (\<forall>l \<in> set listings. url l \<noteq> url r))"
  by (auto simp: otodomListing_def Let_def orDefault_def split: option.splits)

lemma orDefault_nonempty: "d \<noteq> [] \<Longrightarrow> orDefault s d \<noteq> []"
  by (simp add: orDefault_def)

lemma pickLocation_nonempty: "pickLocation ms \<noteq> []"
  by (induction ms) (auto split: option.splits)

lemma otodomLocation_nonempty: "otodomLocation t \<noteq> []"
  unfolding otodomLocation_def by (rule pickLocation_nonempty)

lemma pickLocation_cases:
  "pickLocation ms = ''Warszawa'' \<or> (\<exists>g \<in> set (map the (filter (\<lambda>m. m \<noteq> None) ms)). g \<noteq> [] \<and> pickLocation ms = ''Warszawa, '' @ g)"
  by (induction ms) (auto split: option.splits)

lemma imageOf_Some: "imageOf el = Some s \<longleftrightarrow> el = Some (Some s) \<and> s \<noteq> []"
  by (auto simp: imageOf_def split: option.splits)

lemma foldl_olxListing_origin:
  assumes "r \<in> set (foldl (\<lambda>listings c. olxListing c listings) acc cs)"
  shows "r \<in> set acc \<or> (\<exists>c \<in> set cs. \<exists>listings. r \<notin> set listings \<and> olxListing c listings = listings @ [r])"
  using assms
proof (induction cs arbitrary: acc)
  case Nil
  then show ?case by simp
next
  case (Cons c cs)
  from Cons.prems have "r \<in> set (foldl (\<lambda>listings c. olxListing c listings) (olxListing c acc) cs)"
    by simp
  from Cons.IH [OF this] show ?case
  proof
    assume in_step: "r \<in> set (olxListing c acc)"
    show ?thesis
    proof (cases "r \<in> set acc")
      case True
      then show ?thesis by simp
    next
      case False
      with in_step olxListing_cases [of c acc] have "olxListing c acc = acc @ [r]"
        by auto
      with False show ?thesis by auto
    qed
  next
    assume "\<exists>c \<in> set cs. \<exists>listings. r \<notin> set listings \<and> olxListing c listings = listings @ [r]"
    then show ?thesis by auto
  qed
qed

lemma foldl_otodomListing_origin:
  assumes "r \<in> set (foldl (\<lambda>listings c. otodomListing c listings) acc cs)"
  shows "r \<in> set acc \<or> (\<exists>c \<in> set cs. \<exists>listings. r \<notin> set listings \<and> otodomListing c listings = listings @ [r])"
  using assms
proof (induction cs arbitrary: acc)
  case Nil
  then show ?case by simp
next
  case (Cons c cs)
  from Cons.prems have "r \<in> set (foldl (\<lambda>listings c. otodomListing c listings) (otodomListing c acc) cs)"
    by simp
  from Cons.IH [OF this] show ?case
  proof
    assume in_step: "r \<in> set (otodomListing c acc)"
    show ?thesis
    proof (cases "r \<in> set acc")
      case True
      then show ?thesis by simp
    next
      case False
      with in_step otodomListing_cases [of c acc] have "otodomListing c acc = acc @ [r]"
        by auto
      with False show ?thesis by auto
    qed
  next
    assume "\<exists>c \<in> set cs. \<exists>listings. r \<notin> set listings \<and> otodomListing c listings = listings @ [r]"
    then show ?thesis by auto
  qed
qed

lemma olxExtract_origin:
  assumes "r \<in> set (olxExtract pg)"
  shows "\<exists>c \<in> set (selectCards (found pg)).
           title r = orDefault (orEmpty (map_option trim (titleEl c))) ''Room listing'' \<and>
           location r =
             orDefault (orEmpty (map_option (\<lambda>t. trim (splitHead '' - '' t)) (locationEl c))) ''Warszawa'' \<and>
           imageUrl r = imageOf (imgEl c)"
proof -
  from assms foldl_olxListing_origin [of r "[]" "selectCards (found pg)"]
  obtain c listings where c: "c \<in> set (selectCards (found pg))"
    and new: "r \<notin> set listings" "olxListing c listings = listings @ [r]"
    by (auto simp: olxExtract_def)
  from new olxListing_cases [of c listings] c show ?thesis
    by (intro bexI [of _ c]) auto
qed

lemma otodomExtract_origin:
  assumes "r \<in> set (otodomExtract pg)"
  shows "\<exists>c \<in> set (selectCards (found pg)).
           title r = orDefault (orEmpty (map_option trim (titleEl c))) ''Room in Warsaw'' \<and>
           location r = otodomLocation (textContent c) \<and>
           imageUrl r = imageOf (imgEl c)"
proof -
  from assms foldl_otodomListing_origin [of r "[]" "selectCards (found pg)"]
  obtain c listings where c: "c \<in> set (selectCards (found pg))"
    and new: "r \<notin> set listings" "otodomListing c listings = listings @ [r]"
    by (auto simp: otodomExtract_def)
  from new otodomListing_cases [of c listings] c show ?thesis
    by (intro bexI [of _ c]) auto
qed

lemma olxExtract_made:
  assumes "r \<in> set (olxExtract pg)"
  shows "\<exists>c \<in> set (selectCards (found pg)). \<exists>before.
           r \<notin> set before \<and> olxListing c before = before @ [r] \<and>
           imageUrl r = imageOf (imgEl c)"
proof -
  from assms foldl_olxListing_origin [of r "[]" "selectCards (found pg)"]
  obtain c before where c: "c \<in> set (selectCards (found pg))"
    and new: "r \<notin> set before" "olxListing c before = before @ [r]"
    by (auto simp: olxExtract_def)
  from new olxListing_cases [of c before] have "imageUrl r = imageOf (imgEl c)"
    by auto
  with c new show ?thesis by blast
qed

lemma otodomExtract_made:
  assumes "r \<in> set (otodomExtract pg)"
  shows "\<exists>c \<in> set (selectCards (found pg)). \<exists>before.
           r \<notin> set before \<and> otodomListing c before = before @ [r] \<and>
           imageUrl r = imageOf (imgEl c)"
proof -
  from assms foldl_otodomListing_origin [of r "[]" "selectCards (found pg)"]
  obtain c before where c: "c \<in> set (selectCards (found pg))"
    and new: "r \<notin> set before" "otodomListing c before = before @ [r]"
    by (auto simp: otodomExtract_def)
  from new otodomListing_cases [of c before] have "imageUrl r = imageOf (imgEl c)"
    by auto
  with c new show ?thesis by blast
qed

lemma scrapeOlx_origin:
  assumes "scrapeOlx web options = Inr rooms" and "r \<in> set rooms"
  shows "\<exists>u \<in> set (visited (olxCrawl web options)). \<exists>pg. web u = Some pg \<and> r \<in> set (olxExtract pg)"
proof -
  from assms have "r \<in> set (allRooms (olxCrawl web options))"
    using scrapeOlx_Inr set_applyFilters by blast
  then have "r \<in> set (concat (map (olxRoomsAt web) (visited (olxCrawl web options))))"
    using set_firstSeen by (subst (asm) olxCrawl_allRooms) blast
  then obtain u where u: "u \<in> set (visited (olxCrawl web options))" "r \<in> set (olxRoomsAt web u)"
    by auto
  then show ?thesis
    by (cases "web u") (auto simp: olxRoomsAt_def)
qed

lemma scrapeOtodom_origin:
  assumes "scrapeOtodom web options = Inr rooms" and "r \<in> set rooms"
  shows "\<exists>u \<in> set (visited (otodomCrawl web options)). \<exists>pg. web u = Some pg \<and> r \<in> set (otodomExtract pg)"
proof -
  from assms have "r \<in> set (allRooms (otodomCrawl web options))"
    using scrapeOtodom_Inr set_applyFilters by blast
  then have "r \<in> set (concat (map (otodomRoomsAt web) (visited (otodomCrawl web options))))"
    using set_firstSeen by (subst (asm) otodomCrawl_allRooms) blast
  then obtain u where u: "u \<in> set (visited (otodomCrawl web options))" "r \<in> set (otodomRoomsAt web u)"
    by auto
  then show ?thesis
    by (cases "web u") (auto simp: otodomRoomsAt_def)
qed

lemma olxExtract_pageAB: "olxExtract pageAB = [olxA, olxB]"
  by code_simp

lemma otodomExtract_pageAB: "otodomExtract pageAB = [otodomA, otodomB]"
  by code_simp

lemma hasNextPage_pageAB: "hasNextPage pageAB"
  by (simp add: hasNextPage_def pageAB_def)

lemma url_olxAB: "url olxA \<noteq> url olxB" "url olxB \<noteq> url olxA"
  by (simp_all add: olxA_def olxB_def)

lemma url_otodomAB: "url otodomA \<noteq> url otodomB" "url otodomB \<noteq> url otodomA"
  by (simp_all add: otodomA_def otodomB_def)

lemma olxCrawl_endless:
  assumes "pages options = Some 2"
  shows "allRooms (olxCrawl endlessSite options) = [olxA, olxB]"
    and "thrown (olxCrawl endlessSite options) = None"
    and "visited (olxCrawl endlessSite options) = [olxPageUrl options 1, olxPageUrl options 2]"
proof -
  have b: "pagesToScrape options = 2"
    using assms by (simp add: pagesToScrape_def MAX_PAGES_def)
  have p: "endlessSite u = Some pageAB" for u
    by (simp add: endlessSite_def)
  have "olxCrawl endlessSite options
      = \<lparr>allRooms = [olxA, olxB], visited = [olxPageUrl options 1, olxPageUrl options 2],
         thrown = None\<rparr>"
    unfolding olxCrawl_def b
    by (simp add: olxPages_next [where pg = pageAB] olxPages_stop p hasNextPage_pageAB
        olxExtract_pageAB url_olxAB start_def)
  then show "allRooms (olxCrawl endlessSite options) = [olxA, olxB]"
    and "thrown (olxCrawl endlessSite options) = None"
    and "visited (olxCrawl endlessSite options) = [olxPageUrl options 1, olxPageUrl options 2]"
    by simp_all
qed

lemma otodomCrawl_endless:
  assumes "pages options = Some 2"
  shows "allRooms (otodomCrawl endlessSite options) = [otodomA, otodomB]"
    and "thrown (otodomCrawl endlessSite options) = None"
    and "visited (otodomCrawl endlessSite options) = [otodomPageUrl options 1, otodomPageUrl options 2]"
proof -
  have b: "pagesToScrape options = 2"
    using assms by (simp add: pagesToScrape_def MAX_PAGES_def)
  have p: "endlessSite u = Some pageAB" for u
    by (simp add: endlessSite_def)
  have "otodomCrawl endlessSite options
      = \<lparr>allRooms = [otodomA, otodomB],
         visited = [otodomPageUrl options 1, otodomPageUrl options 2], thrown = None\<rparr>"
    unfolding otodomCrawl_def b
    by (simp add: otodomPages_next [where pg = pageAB] otodomPages_stop p hasNextPage_pageAB
        otodomExtract_pageAB url_otodomAB start_def)
  then show "allRooms (otodomCrawl endlessSite options) = [otodomA, otodomB]"
    and "thrown (otodomCrawl endlessSite options) = None"
    and "visited (otodomCrawl endlessSite options) = [otodomPageUrl options 1, otodomPageUrl options 2]"
    by simp_all
qed

lemma scrapeOlx_endless:
  "pages options = Some 2 \<Longrightarrow>
   scrapeOlx endlessSite options = Inr (applyFilters options [olxA, olxB])"
  by (simp add: scrapeOlx_def olxCrawl_endless)

lemma scrapeOtodom_endless:
  "pages options = Some 2 \<Longrightarrow>
   scrapeOtodom endlessSite options = Inr (applyFilters options [otodomA, otodomB])"
  by (simp add: scrapeOtodom_def otodomCrawl_endless)

lemma applyFilters_none:
  "roomType options = None \<Longrightarrow> maxPrice options = None \<Longrightarrow> applyFilters options rooms = rooms"
  by (simp add: applyFilters_def)

lemma applyFilters_plain: "applyFilters (request None None n) rooms = rooms"
  by (simp add: applyFilters_def request_def)

lemma scrapeOlx_request:
  "scrapeOlx endlessSite (request p t (Some 2)) = Inr (applyFilters (request p t (Some 2)) [olxA, olxB])"
  by (rule scrapeOlx_endless) (simp add: request_def)

lemma scrapeOtodom_request:
  "scrapeOtodom endlessSite (request p t (Some 2))
     = Inr (applyFilters (request p t (Some 2)) [otodomA, otodomB])"
  by (rule scrapeOtodom_endless) (simp add: request_def)

lemma scrapeOlx_plain: "scrapeOlx endlessSite (request None None (Some 2)) = Inr [olxA, olxB]"
  by (simp add: scrapeOlx_request applyFilters_plain)

lemma scrapeOtodom_plain:
  "scrapeOtodom endlessSite (request None None (Some 2)) = Inr [otodomA, otodomB]"
  by (simp add: scrapeOtodom_request applyFilters_plain)

lemma visited_olx_plain:
  "length (visited (olxCrawl endlessSite (request p t (Some 2)))) = 2"
  by (subst olxCrawl_endless(3)) (simp_all add: request_def)

section \<open>Deduplication\<close>

text \<open>
  C4. A crawl that returns gives a sequence without two records of one url. It is, with the
  filters applied, the first-seen deduplication of what the pages visited yielded, page
  after page, so it keeps that order. Adding a page to the rooms accumulated so far keeps
  them as they are, in place, drops the records of the page whose url they already have,
  and appends the others, each url once, in the order of the page.
\<close>

theorem crawl_dedup_first_seen:
  "(scrapeOlx web options = Inr rooms \<longrightarrow>
      distinct (map url rooms) \<and>
      rooms = applyFilters options
        (firstSeen (concat (map (olxRoomsAt web) (visited (olxCrawl web options))))) \<and>
      subseq rooms (firstSeen (concat (map (olxRoomsAt web) (visited (olxCrawl web options)))))) \<and>
   (scrapeOtodom web options = Inr rooms \<longrightarrow>
      distinct (map url rooms) \<and>
      rooms = applyFilters options
        (firstSeen (concat (map (otodomRoomsAt web) (visited (otodomCrawl web options))))) \<and>
      subseq rooms
        (firstSeen (concat (map (otodomRoomsAt web) (visited (otodomCrawl web options)))))) \<and>
   addUnique acc pageRooms
     = acc @ firstSeen (filter (\<lambda>r. url r \<notin> url ` set acc) pageRooms)"
proof (intro conjI impI)
  assume a: "scrapeOlx web options = Inr rooms"
  let ?all = "firstSeen (concat (map (olxRoomsAt web) (visited (olxCrawl web options))))"
  show eq: "rooms = applyFilters options ?all"
    using scrapeOlx_Inr [OF a] by (simp add: olxCrawl_allRooms [symmetric])
  show "distinct (map url rooms)"
    by (subst eq) (rule distinct_applyFilters, rule distinct_firstSeen)
  show "subseq rooms ?all"
    by (subst eq) (rule subseq_applyFilters)
next
  assume a: "scrapeOtodom web options = Inr rooms"
  let ?all = "firstSeen (concat (map (otodomRoomsAt web) (visited (otodomCrawl web options))))"
  show eq: "rooms = applyFilters options ?all"
    using scrapeOtodom_Inr [OF a] by (simp add: otodomCrawl_allRooms [symmetric])
  show "distinct (map url rooms)"
    by (subst eq) (rule distinct_applyFilters, rule distinct_firstSeen)
  show "subseq rooms ?all"
    by (subst eq) (rule subseq_applyFilters)
next
  show "addUnique acc pageRooms
      = acc @ firstSeen (filter (\<lambda>r. url r \<notin> url ` set acc) pageRooms)"
    by (rule addUnique_firstSeen)
qed

text \<open>Two visits of the same page: the second adds nothing and moves nothing.\<close>

theorem crawl_dedup_first_seen_witness:
  "scrapeOlx endlessSite (request None None (Some 2)) = Inr [olxA, olxB] \<and>
   length (visited (olxCrawl endlessSite (request None None (Some 2)))) = 2 \<and>
   distinct (map url [olxA, olxB]) \<and>
   scrapeOtodom endlessSite (request None None (Some 2)) = Inr [otodomA, otodomB] \<and>
   distinct (map url [otodomA, otodomB])"
proof -
  have a: "scrapeOlx endlessSite (request None None (Some 2)) = Inr [olxA, olxB]"
    by (rule scrapeOlx_plain)
  have b: "scrapeOtodom endlessSite (request None None (Some 2)) = Inr [otodomA, otodomB]"
    by (rule scrapeOtodom_plain)
  have n: "length (visited (olxCrawl endlessSite (request None None (Some 2)))) = 2"
    by (rule visited_olx_plain)
  from a b n
    crawl_dedup_first_seen [of endlessSite "request None None (Some 2)" "[olxA, olxB]"]
    crawl_dedup_first_seen [of endlessSite "request None None (Some 2)" "[otodomA, otodomB]"]
  show ?thesis by blast
qed

section \<open>Titles, locations and images\<close>

text \<open>
  C7. Every listing a scraper returns has a non-empty title and a non-empty location. A
  record extracted from a page comes from a card of that page; its title is the trimmed
  text of the card's title element, or the scraper's default string (\<open>Room listing\<close>,
  \<open>Room in Warsaw\<close>) when there is no such text; its location is, for OLX, the trimmed
  text before the first \<open>" - "\<close> of the location element or else \<open>Warszawa\<close>, and for Otodom
  \<open>Warszawa\<close> alone or followed by a district.
\<close>

theorem title_and_location_nonempty:
  "(scrapeOlx web options = Inr rooms \<and> r \<in> set rooms \<longrightarrow> title r \<noteq> [] \<and> location r \<noteq> []) \<and>
   (scrapeOtodom web options = Inr rooms \<and> r \<in> set rooms \<longrightarrow>
      title r \<noteq> [] \<and> location r \<noteq> []) \<and>
   (r \<in> set (olxExtract pg) \<longrightarrow>
      (\<exists>c \<in> set (selectCards (found pg)).
         title r = orDefault (orEmpty (map_option trim (titleEl c))) ''Room listing'' \<and>
         location r =
           orDefault (orEmpty (map_option (\<lambda>t. trim (splitHead '' - '' t)) (locationEl c)))
             ''Warszawa'')) \<and>
   (r \<in> set (otodomExtract pg) \<longrightarrow>
      (\<exists>c \<in> set (selectCards (found pg)).
         title r = orDefault (orEmpty (map_option trim (titleEl c))) ''Room in Warsaw'' \<and>
         (location r = ''Warszawa'' \<or> (\<exists>g. g \<noteq> [] \<and> location r = ''Warszawa, '' @ g)))) \<and>
   orDefault [] d = d \<and> (s \<noteq> [] \<longrightarrow> orDefault s d = s)"
proof -
  have olx: "title x \<noteq> [] \<and> location x \<noteq> []" if "x \<in> set (olxExtract p)" for x p
    using olxExtract_origin [OF that] by (auto simp: orDefault_def split: if_splits)
  have oto: "title x \<noteq> [] \<and> location x \<noteq> []" if "x \<in> set (otodomExtract p)" for x p
  proof -
    from otodomExtract_origin [OF that] obtain c where
      "c \<in> set (selectCards (found p))"
      and t: "title x = orDefault (orEmpty (map_option trim (titleEl c))) ''Room in Warsaw''"
      and l: "location x = otodomLocation (textContent c)"
      by blast
    from t have "title x \<noteq> []" by (simp add: orDefault_def)
    moreover from l have "location x \<noteq> []" by (simp add: otodomLocation_nonempty)
    ultimately show ?thesis by simp
  qed
  have a: "title r \<noteq> [] \<and> location r \<noteq> []"
    if "scrapeOlx web options = Inr rooms" "r \<in> set rooms"
    using scrapeOlx_origin [OF that] olx by blast
  have b: "title r \<noteq> [] \<and> location r \<noteq> []"
    if "scrapeOtodom web options = Inr rooms" "r \<in> set rooms"
    using scrapeOtodom_origin [OF that] oto by blast
  have c: "\<exists>c \<in> set (selectCards (found pg)).
         title r = orDefault (orEmpty (map_option trim (titleEl c))) ''Room listing'' \<and>
         location r =
           orDefault (orEmpty (map_option (\<lambda>t. trim (splitHead '' - '' t)) (locationEl c)))
             ''Warszawa''"
    if "r \<in> set (olxExtract pg)"
    using olxExtract_origin [OF that] by blast
  have loc: "otodomLocation t = ''Warszawa'' \<or> (\<exists>g. g \<noteq> [] \<and> otodomLocation t = ''Warszawa, '' @ g)"
    for t
    unfolding otodomLocation_def
    using pickLocation_cases [of "[matchLocation ''warszawa,'' False t, matchLocation ''warszawa'' True t]"]
    by blast
  have d: "\<exists>c \<in> set (selectCards (found pg)).
         title r = orDefault (orEmpty (map_option trim (titleEl c))) ''Room in Warsaw'' \<and>
         (location r = ''Warszawa'' \<or> (\<exists>g. g \<noteq> [] \<and> location r = ''Warszawa, '' @ g))"
    if "r \<in> set (otodomExtract pg)"
  proof -
    from otodomExtract_origin [OF that] obtain c where c: "c \<in> set (selectCards (found pg))"
      "title r = orDefault (orEmpty (map_option trim (titleEl c))) ''Room in Warsaw''"
      "location r = otodomLocation (textContent c)"
      by blast
    with loc [of "textContent c"] show ?thesis
      by (intro bexI [of _ c]) auto
  qed
  from a b c d show ?thesis
    by (simp add: orDefault_def)
qed

text \<open>The second card of the example page has no title and no location element.\<close>

theorem title_and_location_nonempty_witness:
  "scrapeOlx endlessSite (request None None (Some 2)) = Inr [olxA, olxB] \<and>
   titleEl cardB = None \<and> title olxB = ''Room listing'' \<and> location olxB = ''Warszawa'' \<and>
   title olxB \<noteq> [] \<and> location olxB \<noteq> [] \<and>
   scrapeOtodom endlessSite (request None None (Some 2)) = Inr [otodomA, otodomB] \<and>
   title otodomB \<noteq> [] \<and> location otodomB \<noteq> []"
proof -
  have a: "scrapeOlx endlessSite (request None None (Some 2)) = Inr [olxA, olxB]"
    by (rule scrapeOlx_plain)
  have b: "scrapeOtodom endlessSite (request None None (Some 2)) = Inr [otodomA, otodomB]"
    by (rule scrapeOtodom_plain)
  have c: "titleEl cardB = None \<and> title olxB = ''Room listing'' \<and> location olxB = ''Warszawa''"
    by (simp add: cardB_def olxB_def)
  from a b c
    title_and_location_nonempty [of endlessSite "request None None (Some 2)" "[olxA, olxB]" olxB]
    title_and_location_nonempty [of endlessSite "request None None (Some 2)"
      "[otodomA, otodomB]" otodomB]
  show ?thesis by simp
qed

text \<open>
  C9, as the code has it. The image of a listing is the \<^verbatim>\<open>src\<close> attribute of the image
  element of the card the listing is made from, as it stands in the page: present exactly
  when the card has an image element with a non-empty \<^verbatim>\<open>src\<close>, and then that very
  string. Nothing resolves it against the origin of the site (only the listing's own link
  is resolved). Every listing a scraper returns is the record that the extraction of a
  visited page appended for one of the page's cards.
\<close>

theorem image_url_is_src_attribute:
  "(olxListing c listings = listings \<or>
      (\<exists>r. olxListing c listings = listings @ [r] \<and> imageUrl r = imageOf (imgEl c))) \<and>
   (otodomListing c listings = listings \<or>
      (\<exists>r. otodomListing c listings = listings @ [r] \<and> imageUrl r = imageOf (imgEl c))) \<and>
   (scrapeOlx web options = Inr rooms \<and> r \<in> set rooms \<longrightarrow>
      (\<exists>u \<in> set (visited (olxCrawl web options)). \<exists>pg. web u = Some pg \<and>
         (\<exists>c \<in> set (selectCards (found pg)). \<exists>before.
            r \<notin> set before \<and> olxListing c before = before @ [r] \<and>
            imageUrl r = imageOf (imgEl c)))) \<and>
   (scrapeOtodom web options = Inr rooms \<and> r \<in> set rooms \<longrightarrow>
      (\<exists>u \<in> set (visited (otodomCrawl web options)). \<exists>pg. web u = Some pg \<and>
         (\<exists>c \<in> set (selectCards (found pg)). \<exists>before.
            r \<notin> set before \<and> otodomListing c before = before @ [r] \<and>
            imageUrl r = imageOf (imgEl c)))) \<and>
   (imageOf el = Some s \<longleftrightarrow> el = Some (Some s) \<and> s \<noteq> [])"
proof (intro conjI impI)
  show "olxListing c listings = listings \<or>
      (\<exists>r. olxListing c listings = listings @ [r] \<and> imageUrl r = imageOf (imgEl c))"
    using olxListing_cases [of c listings] by blast
next
  show "otodomListing c listings = listings \<or>
      (\<exists>r. otodomListing c listings = listings @ [r] \<and> imageUrl r = imageOf (imgEl c))"
    using otodomListing_cases [of c listings] by blast
next
  assume a: "scrapeOlx web options = Inr rooms \<and> r \<in> set rooms"
  then obtain u pg where u: "u \<in> set (visited (olxCrawl web options))" "web u = Some pg"
    "r \<in> set (olxExtract pg)"
    using scrapeOlx_origin [of web options rooms r] by blast
  from olxExtract_made [OF u(3)] u(1,2)
  show "\<exists>u \<in> set (visited (olxCrawl web options)). \<exists>pg. web u = Some pg \<and>
         (\<exists>c \<in> set (selectCards (found pg)). \<exists>before.
            r \<notin> set before \<and> olxListing c before = before @ [r] \<and>
            imageUrl r = imageOf (imgEl c))"
    by blast
next
  assume a: "scrapeOtodom web options = Inr rooms \<and> r \<in> set rooms"
  then obtain u pg where u: "u \<in> set (visited (otodomCrawl web options))" "web u = Some pg"
    "r \<in> set (otodomExtract pg)"
    using scrapeOtodom_origin [of web options rooms r] by blast
  from otodomExtract_made [OF u(3)] u(1,2)
  show "\<exists>u \<in> set (visited (otodomCrawl web options)). \<exists>pg. web u = Some pg \<and>
         (\<exists>c \<in> set (selectCards (found pg)). \<exists>before.
            r \<notin> set before \<and> otodomListing c before = before @ [r] \<and>
            imageUrl r = imageOf (imgEl c))"
    by blast
next
  show "imageOf el = Some s \<longleftrightarrow> el = Some (Some s) \<and> s \<noteq> []"
    by (rule imageOf_Some)
qed

text \<open>
  On the example page the first listing is made from the first card and has its
  \<^verbatim>\<open>src\<close>; the second card has no image element and its listing has no image.
\<close>

theorem image_url_is_src_attribute_witness:
  "scrapeOlx endlessSite (request None None (Some 2)) = Inr [olxA, olxB] \<and>
   olxListing cardA [] = [] @ [olxA] \<and> imageUrl olxA = imageOf (imgEl cardA) \<and>
   imageUrl olxA = Some ''/img/a.jpg'' \<and>
   olxListing cardB [olxA] = [olxA] @ [olxB] \<and> imageUrl olxB = imageOf (imgEl cardB) \<and>
   imageUrl olxB = None \<and>
   (\<exists>u \<in> set (visited (olxCrawl endlessSite (request None None (Some 2)))).
      \<exists>pg. endlessSite u = Some pg \<and>
        (\<exists>c \<in> set (selectCards (found pg)). \<exists>before.
           olxA \<notin> set before \<and> olxListing c before = before @ [olxA] \<and>
           imageUrl olxA = imageOf (imgEl c)))"
proof -
  have a: "scrapeOlx endlessSite (request None None (Some 2)) = Inr [olxA, olxB]"
    by (rule scrapeOlx_plain)
  have la: "olxListing cardA [] = [] @ [olxA]" and lb: "olxListing cardB [olxA] = [olxA] @ [olxB]"
    by code_simp+
  have ne: "[] @ [olxA] \<noteq> []" "[olxA] @ [olxB] \<noteq> [olxA]"
    by simp_all
  have i: "imageUrl olxA = Some ''/img/a.jpg''" "imageUrl olxB = None"
    by (simp_all add: olxA_def olxB_def)
  from a la lb ne i
    image_url_is_src_attribute [of cardA "[]" endlessSite "request None None (Some 2)"
      "[olxA, olxB]" olxA]
    image_url_is_src_attribute [of cardB "[olxA]" endlessSite "request None None (Some 2)"
      "[olxA, olxB]" olxA]
  show ?thesis by auto
qed

text \<open>
  The claim as written fails: the first card of the example page has the relative
  \<^verbatim>\<open>src\<close> \<open>/img/a.jpg\<close>, and both scrapers return it unchanged.
\<close>

theorem image_url_relative_counterexample:
  "imgEl cardA = Some (Some ''/img/a.jpg'') \<and>
   scrapeOlx endlessSite (request None None (Some 2)) = Inr [olxA, olxB] \<and>
   imageUrl olxA = Some ''/img/a.jpg'' \<and>
   scrapeOtodom endlessSite (request None None (Some 2)) = Inr [otodomA, otodomB] \<and>
   imageUrl otodomA = Some ''/img/a.jpg'' \<and>
   \<not> startsWith ''/img/a.jpg'' ''http''"
proof -
  have a: "scrapeOlx endlessSite (request None None (Some 2)) = Inr [olxA, olxB]"
    by (rule scrapeOlx_plain)
  have b: "scrapeOtodom endlessSite (request None None (Some 2)) = Inr [otodomA, otodomB]"
    by (rule scrapeOtodom_plain)
  from a b show ?thesis
    by (simp add: cardA_def olxA_def otodomA_def startsWith_def)
qed

section \<open>The filters\<close>

lemma applyFilters_maxPrice:
  assumes "maxPrice options = Some P" and "P \<noteq> 0" and "r \<in> set (applyFilters options rooms)"
  shows "withinPrice P r"
  using assms by (auto simp: applyFilters_def Let_def split: option.splits if_splits)

lemma applyFilters_roomType:
  assumes "roomType options = Some T" and "T \<noteq> []" and "r \<in> set (applyFilters options rooms)"
  shows "matchesRoomType (getRoomTypeKeywords T) r"
  using assms by (auto simp: applyFilters_def Let_def split: option.splits if_splits)

lemma withinPrice_iff: "withinPrice P r \<longleftrightarrow> price r = None \<or> (\<exists>q. price r = Some q \<and> q \<le> P)"
  by (cases "price r") (simp_all add: withinPrice_def)

lemma applyFilters_keeps_absent_price:
  "filter (\<lambda>x. price x = None) (applyFilters options xs)
     = filter (\<lambda>x. price x = None) (applyFilters (options\<lparr>maxPrice := None\<rparr>) xs)"
proof -
  have [simp]: "(withinPrice P x \<and> price x = None) \<longleftrightarrow> price x = None" for P x
    by (auto simp: withinPrice_def)
  show ?thesis
    by (simp add: applyFilters_def Let_def split: option.splits)
qed

lemma applyFilters_example_price:
  "applyFilters (request (Some 1000) None n) [olxA, olxB] = [olxB]"
  "applyFilters (request (Some 2000) None n) [olxA, olxB] = [olxA, olxB]"
  "applyFilters (request (Some 0) None n) [olxA, olxB] = [olxA, olxB]"
  "applyFilters (request (Some 0) None n) [otodomA, otodomB] = [otodomA, otodomB]"
  by (simp_all add: applyFilters_def request_def withinPrice_def olxA_def olxB_def otodomA_def
      otodomB_def)

lemma lower_titles:
  "toLowerCase (title olxA) = ''pokoj single''"
  "toLowerCase (title olxB) = ''room listing''"
  "toLowerCase (title otodomA) = ''pokoj single''"
  "toLowerCase (title otodomB) = ''room in warsaw''"
  by code_simp+

lemma applyFilters_example_type:
  "applyFilters (request None (Some ''single'') n) [olxA, olxB] = [olxA]"
  "applyFilters (request None (Some ''single'') n) [otodomA, otodomB] = [otodomA]"
  "applyFilters (request None (Some ''loft'') n) [olxA, olxB] = []"
  "applyFilters (request None (Some []) n) [olxA, olxB] = [olxA, olxB]"
  "applyFilters (request None (Some []) n) [otodomA, otodomB] = [otodomA, otodomB]"
  by (simp_all add: applyFilters_def request_def matchesRoomType_def getRoomTypeKeywords_def
      lower_titles includes_str_def sublist_code)

text \<open>
  C1, as the code has it. When \<open>maxPrice\<close> is a number other than zero, every listing a
  scraper returns has no price or a price of at most \<open>maxPrice\<close>. The ceiling never
  excludes a listing without a price: the listings without a price that are returned are
  those returned when no \<open>maxPrice\<close> is given.
\<close>

theorem price_ceiling:
  assumes "maxPrice options = Some P" and "P \<noteq> 0"
  shows "(scrapeOlx web options = Inr rooms \<and> r \<in> set rooms \<longrightarrow>
            price r = None \<or> (\<exists>q. price r = Some q \<and> q \<le> P)) \<and>
         (scrapeOtodom web options = Inr rooms \<and> r \<in> set rooms \<longrightarrow>
            price r = None \<or> (\<exists>q. price r = Some q \<and> q \<le> P)) \<and>
         filter (\<lambda>x. price x = None) (applyFilters options xs)
           = filter (\<lambda>x. price x = None) (applyFilters (options\<lparr>maxPrice := None\<rparr>) xs)"
proof (intro conjI impI)
  assume "scrapeOlx web options = Inr rooms \<and> r \<in> set rooms"
  then have "r \<in> set (applyFilters options (allRooms (olxCrawl web options)))"
    using scrapeOlx_Inr by blast
  from applyFilters_maxPrice [OF assms this]
  show "price r = None \<or> (\<exists>q. price r = Some q \<and> q \<le> P)"
    by (simp add: withinPrice_iff)
next
  assume "scrapeOtodom web options = Inr rooms \<and> r \<in> set rooms"
  then have "r \<in> set (applyFilters options (allRooms (otodomCrawl web options)))"
    using scrapeOtodom_Inr by blast
  from applyFilters_maxPrice [OF assms this]
  show "price r = None \<or> (\<exists>q. price r = Some q \<and> q \<le> P)"
    by (simp add: withinPrice_iff)
next
  show "filter (\<lambda>x. price x = None) (applyFilters options xs)
      = filter (\<lambda>x. price x = None) (applyFilters (options\<lparr>maxPrice := None\<rparr>) xs)"
    by (rule applyFilters_keeps_absent_price)
qed

theorem price_ceiling_witness:
  "scrapeOlx endlessSite (request (Some 1000) None (Some 2)) = Inr [olxB] \<and>
   price olxB = None \<and>
   scrapeOlx endlessSite (request (Some 2000) None (Some 2)) = Inr [olxA, olxB] \<and>
   (\<exists>q. price olxA = Some q \<and> q \<le> 2000)"
proof -
  have m: "maxPrice (request (Some 2000) None (Some 2)) = Some 2000" and z: "(2000::int) \<noteq> 0"
    by (simp_all add: request_def)
  have a: "scrapeOlx endlessSite (request (Some 1000) None (Some 2)) = Inr [olxB]"
    by (simp add: scrapeOlx_request applyFilters_example_price)
  have b: "scrapeOlx endlessSite (request (Some 2000) None (Some 2)) = Inr [olxA, olxB]"
    by (simp add: scrapeOlx_request applyFilters_example_price)
  have c: "price olxB = None" "price olxA \<noteq> None"
    by (simp_all add: olxA_def olxB_def)
  from a b c
    price_ceiling [OF m z, of endlessSite "[olxA, olxB]" olxA]
  show ?thesis by auto
qed

text \<open>
  The claim as written fails for \<open>maxPrice = 0\<close>: zero is falsy, the filter is skipped,
  and a listing of 1500 is returned.
\<close>

theorem price_ceiling_zero_counterexample:
  "maxPrice (request (Some 0) None (Some 2)) = Some 0 \<and>
   scrapeOlx endlessSite (request (Some 0) None (Some 2)) = Inr [olxA, olxB] \<and>
   scrapeOtodom endlessSite (request (Some 0) None (Some 2)) = Inr [otodomA, otodomB] \<and>
   price olxA = Some 1500 \<and> price otodomA = Some 1500 \<and> \<not> (1500 :: int) \<le> 0"
  by (simp add: scrapeOlx_request scrapeOtodom_request applyFilters_example_price)
    (simp add: request_def olxA_def otodomA_def)

text \<open>
  C8. When \<open>roomType\<close> is one of the four types, every listing a scraper returns has a
  title whose lower-cased form contains a keyword of that type.
\<close>

theorem room_type_filter:
  assumes "roomType options = Some T"
    and "T \<in> {''single'', ''shared'', ''studio'', ''apartment''}"
  shows "(scrapeOlx web options = Inr rooms \<and> r \<in> set rooms \<longrightarrow>
            (\<exists>kw \<in> set (getRoomTypeKeywords T). includes_str (toLowerCase (title r)) kw)) \<and>
         (scrapeOtodom web options = Inr rooms \<and> r \<in> set rooms \<longrightarrow>
            (\<exists>kw \<in> set (getRoomTypeKeywords T). includes_str (toLowerCase (title r)) kw))"
proof (intro conjI impI)
  from assms(2) have ne: "T \<noteq> []" by auto
  {
    assume "scrapeOlx web options = Inr rooms \<and> r \<in> set rooms"
    then have "r \<in> set (applyFilters options (allRooms (olxCrawl web options)))"
      using scrapeOlx_Inr by blast
    from applyFilters_roomType [OF assms(1) ne this]
    show "\<exists>kw \<in> set (getRoomTypeKeywords T). includes_str (toLowerCase (title r)) kw"
      by (simp add: matchesRoomType_def)
  }
  {
    assume "scrapeOtodom web options = Inr rooms \<and> r \<in> set rooms"
    then have "r \<in> set (applyFilters options (allRooms (otodomCrawl web options)))"
      using scrapeOtodom_Inr by blast
    from applyFilters_roomType [OF assms(1) ne this]
    show "\<exists>kw \<in> set (getRoomTypeKeywords T). includes_str (toLowerCase (title r)) kw"
      by (simp add: matchesRoomType_def)
  }
qed

theorem room_type_filter_witness:
  "scrapeOlx endlessSite (request None (Some ''single'') (Some 2)) = Inr [olxA] \<and>
   scrapeOtodom endlessSite (request None (Some ''single'') (Some 2)) = Inr [otodomA] \<and>
   toLowerCase (title olxA) = ''pokoj single'' \<and>
   (\<exists>kw \<in> set (getRoomTypeKeywords ''single''). includes_str (toLowerCase (title olxA)) kw)"
proof -
  have t: "roomType (request None (Some ''single'') (Some 2)) = Some ''single''"
    by (simp add: request_def)
  have m: "''single'' \<in> {''single'', ''shared'', ''studio'', ''apartment''}"
    by simp
  have a: "scrapeOlx endlessSite (request None (Some ''single'') (Some 2)) = Inr [olxA]"
    by (simp add: scrapeOlx_request applyFilters_example_type)
  have b: "scrapeOtodom endlessSite (request None (Some ''single'') (Some 2)) = Inr [otodomA]"
    by (simp add: scrapeOtodom_request applyFilters_example_type)
  from a b lower_titles(1)
    room_type_filter [OF t m, of endlessSite "[olxA]" olxA]
  show ?thesis by simp
qed

text \<open>
  C10, as the code has it. For every string outside the four types \<open>getRoomTypeKeywords\<close>
  returns no keyword. When \<open>roomType\<close> is such a string and is not empty, the filter keeps
  nothing, and a scraper that returns, returns the empty sequence.
\<close>

theorem unknown_room_type_gives_nothing:
  assumes "roomType options = Some T"
    and "T \<notin> {''single'', ''shared'', ''studio'', ''apartment''}"
    and "T \<noteq> []"
  shows "getRoomTypeKeywords T = [] \<and>
         (scrapeOlx web options = Inr rooms \<longrightarrow> rooms = []) \<and>
         (scrapeOtodom web options = Inr rooms \<longrightarrow> rooms = [])"
proof -
  from assms(2) have kw: "getRoomTypeKeywords T = []"
    by (simp add: getRoomTypeKeywords_def)
  have none: "applyFilters options xs = []" for xs
  proof -
    have "r \<notin> set (applyFilters options xs)" for r
      using applyFilters_roomType [OF assms(1) assms(3), of r xs] kw
      by (auto simp: matchesRoomType_def)
    then show ?thesis
      by (cases "applyFilters options xs") auto
  qed
  have a: "rooms = []" if "scrapeOlx web options = Inr rooms"
    using scrapeOlx_Inr [OF that] none by simp
  have b: "rooms = []" if "scrapeOtodom web options = Inr rooms"
    using scrapeOtodom_Inr [OF that] none by simp
  from kw a b show ?thesis by simp
qed

theorem unknown_room_type_gives_nothing_witness:
  "getRoomTypeKeywords ''loft'' = [] \<and>
   scrapeOlx endlessSite (request None (Some ''loft'') (Some 2)) = Inr []"
proof -
  have t: "roomType (request None (Some ''loft'') (Some 2)) = Some ''loft''"
    by (simp add: request_def)
  have m: "''loft'' \<notin> {''single'', ''shared'', ''studio'', ''apartment''}" and ne: "''loft'' \<noteq> []"
    by simp_all
  have a: "scrapeOlx endlessSite (request None (Some ''loft'') (Some 2)) = Inr []"
    by (simp add: scrapeOlx_request applyFilters_example_type)
  from a unknown_room_type_gives_nothing [OF t m ne, of endlessSite "[]"]
  show ?thesis by simp
qed

text \<open>
  The claim as written fails for the empty string: it is outside the four types and has no
  keyword, but it is falsy, so the filter is skipped and every listing is returned.
\<close>

theorem empty_room_type_counterexample:
  "roomType (request None (Some []) (Some 2)) = Some [] \<and>
   getRoomTypeKeywords [] = [] \<and>
   scrapeOlx endlessSite (request None (Some []) (Some 2)) = Inr [olxA, olxB] \<and>
   scrapeOtodom endlessSite (request None (Some []) (Some 2)) = Inr [otodomA, otodomB]"
  by (simp add: scrapeOlx_request scrapeOtodom_request applyFilters_example_type)
    (simp add: request_def getRoomTypeKeywords_def)

section \<open>Page URLs\<close>

lemma digitsOf_chars: "set (digitsOf n) \<subseteq> set ''0123456789''"
proof (induction n rule: digitsOf.induct)
  case (1 n)
  have d: "''0123456789'' ! k \<in> set ''0123456789''" if "k < 10" for k
    using that nth_mem [of k "''0123456789''"] by simp
  show ?case
  proof (cases "n < 10")
    case True
    with d [of n] show ?thesis
      by (subst digitsOf.simps) simp
  next
    case False
    with 1 d [of "n mod 10"] show ?thesis
      by (subst digitsOf.simps) simp
  qed
qed

lemma numToString_chars:
  assumes "c \<notin> set ''-0123456789''"
  shows "c \<notin> set (numToString n)"
  using assms digitsOf_chars [of "nat n"] digitsOf_chars [of "nat (- n)"]
  by (auto simp: numToString_def)

lemma not_includes_char: "c \<in> set kw \<Longrightarrow> c \<notin> set s \<Longrightarrow> \<not> includes_str s kw"
  unfolding includes_str_def using set_mono_sublist by blast

lemma includes_middle: "s = a @ kw @ b \<Longrightarrow> includes_str s kw"
  by (simp add: includes_str_def)

lemma olxPageUrl_forms:
  "maxPrice options = Some p \<Longrightarrow> p \<noteq> 0 \<Longrightarrow> 1 < pageNum \<Longrightarrow>
     olxPageUrl options pageNum
       = ''https://www.olx.pl/nieruchomosci/stancje-pokoje/warszawa/'' @ ''?'' @
         ''search%5Bfilter_float_price%3Ato%5D='' @ numToString p @ ''&'' @
         ''page='' @ numToString pageNum"
  "maxPrice options = Some p \<Longrightarrow> p \<noteq> 0 \<Longrightarrow> \<not> 1 < pageNum \<Longrightarrow>
     olxPageUrl options pageNum
       = ''https://www.olx.pl/nieruchomosci/stancje-pokoje/warszawa/'' @ ''?'' @
         ''search%5Bfilter_float_price%3Ato%5D='' @ numToString p"
  "maxPrice options = None \<or> maxPrice options = Some 0 \<Longrightarrow> 1 < pageNum \<Longrightarrow>
     olxPageUrl options pageNum
       = ''https://www.olx.pl/nieruchomosci/stancje-pokoje/warszawa/'' @ ''?'' @
         ''page='' @ numToString pageNum"
  "maxPrice options = None \<or> maxPrice options = Some 0 \<Longrightarrow> \<not> 1 < pageNum \<Longrightarrow>
     olxPageUrl options pageNum = ''https://www.olx.pl/nieruchomosci/stancje-pokoje/warszawa/''"
  by (auto simp: olxPageUrl_def)

lemma otodomPageUrl_forms:
  "maxPrice options = Some p \<Longrightarrow> p \<noteq> 0 \<Longrightarrow> 1 < pageNum \<Longrightarrow>
     otodomPageUrl options pageNum
       = ''https://www.otodom.pl/pl/wyniki/wynajem/pokoj/mazowieckie/warszawa/warszawa/warszawa''
         @ ''?'' @ ''priceMax='' @ numToString p @ ''&'' @ ''page='' @ numToString pageNum"
  "maxPrice options = Some p \<Longrightarrow> p \<noteq> 0 \<Longrightarrow> \<not> 1 < pageNum \<Longrightarrow>
     otodomPageUrl options pageNum
       = ''https://www.otodom.pl/pl/wyniki/wynajem/pokoj/mazowieckie/warszawa/warszawa/warszawa''
         @ ''?'' @ ''priceMax='' @ numToString p"
  "maxPrice options = None \<or> maxPrice options = Some 0 \<Longrightarrow> 1 < pageNum \<Longrightarrow>
     otodomPageUrl options pageNum
       = ''https://www.otodom.pl/pl/wyniki/wynajem/pokoj/mazowieckie/warszawa/warszawa/warszawa''
         @ ''?'' @ ''page='' @ numToString pageNum"
  "maxPrice options = None \<or> maxPrice options = Some 0 \<Longrightarrow> \<not> 1 < pageNum \<Longrightarrow>
     otodomPageUrl options pageNum
       = ''https://www.otodom.pl/pl/wyniki/wynajem/pokoj/mazowieckie/warszawa/warszawa/warszawa''"
  by (auto simp: otodomPageUrl_def)

lemma falsy_or_truthy:
  "(maxPrice options = None \<or> maxPrice options = Some 0) \<or> (\<exists>p. maxPrice options = Some p \<and> p \<noteq> 0)"
  by (cases "maxPrice options") auto

lemma olx_price_param:
  "includes_str (olxPageUrl options pageNum) ''search%5Bfilter_float_price%3Ato%5D=''
     \<longleftrightarrow> (\<exists>p. maxPrice options = Some p \<and> p \<noteq> 0)"
proof (cases "\<exists>p. maxPrice options = Some p \<and> p \<noteq> 0")
  case True
  then obtain p where p: "maxPrice options = Some p" "p \<noteq> 0" by blast
  have "includes_str (olxPageUrl options pageNum) ''search%5Bfilter_float_price%3Ato%5D=''"
  proof (cases "1 < pageNum")
    case True
    show ?thesis
      by (rule includes_middle
          [of _ "''https://www.olx.pl/nieruchomosci/stancje-pokoje/warszawa/'' @ ''?''" _
            "numToString p @ ''&'' @ ''page='' @ numToString pageNum"])
        (simp only: olxPageUrl_forms(1) [OF p True] append_assoc)
  next
    case False
    show ?thesis
      by (rule includes_middle
          [of _ "''https://www.olx.pl/nieruchomosci/stancje-pokoje/warszawa/'' @ ''?''" _
            "numToString p"])
        (simp only: olxPageUrl_forms(2) [OF p False] append_assoc)
  qed
  with True show ?thesis by simp
next
  case False
  then have f: "maxPrice options = None \<or> maxPrice options = Some 0"
    using falsy_or_truthy [of options] by blast
  have pc: "CHR ''%'' \<notin> set (numToString pageNum)"
    by (rule numToString_chars) simp
  have "CHR ''%'' \<notin> set (olxPageUrl options pageNum)"
  proof (cases "1 < pageNum")
    case True
    with pc show ?thesis by (simp add: olxPageUrl_forms(3) [OF f True])
  next
    case False
    then show ?thesis by (simp add: olxPageUrl_forms(4) [OF f False])
  qed
  then have "\<not> includes_str (olxPageUrl options pageNum) ''search%5Bfilter_float_price%3Ato%5D=''"
    by (intro not_includes_char [of "CHR ''%''"]) simp_all
  with False show ?thesis by simp
qed

lemma otodom_price_param:
  "includes_str (otodomPageUrl options pageNum) ''priceMax=''
     \<longleftrightarrow> (\<exists>p. maxPrice options = Some p \<and> p \<noteq> 0)"
proof (cases "\<exists>p. maxPrice options = Some p \<and> p \<noteq> 0")
  case True
  then obtain p where p: "maxPrice options = Some p" "p \<noteq> 0" by blast
  have "includes_str (otodomPageUrl options pageNum) ''priceMax=''"
  proof (cases "1 < pageNum")
    case True
    show ?thesis
      by (rule includes_middle
          [of _ "''https://www.otodom.pl/pl/wyniki/wynajem/pokoj/mazowieckie/warszawa/warszawa/warszawa'' @ ''?''" _
            "numToString p @ ''&'' @ ''page='' @ numToString pageNum"])
        (simp only: otodomPageUrl_forms(1) [OF p True] append_assoc)
  next
    case False
    show ?thesis
      by (rule includes_middle
          [of _ "''https://www.otodom.pl/pl/wyniki/wynajem/pokoj/mazowieckie/warszawa/warszawa/warszawa'' @ ''?''" _
            "numToString p"])
        (simp only: otodomPageUrl_forms(2) [OF p False] append_assoc)
  qed
  with True show ?thesis by simp
next
  case False
  then have f: "maxPrice options = None \<or> maxPrice options = Some 0"
    using falsy_or_truthy [of options] by blast
  have pc: "CHR ''M'' \<notin> set (numToString pageNum)"
    by (rule numToString_chars) simp
  have "CHR ''M'' \<notin> set (otodomPageUrl options pageNum)"
  proof (cases "1 < pageNum")
    case True
    with pc show ?thesis by (simp add: otodomPageUrl_forms(3) [OF f True])
  next
    case False
    then show ?thesis by (simp add: otodomPageUrl_forms(4) [OF f False])
  qed
  then have "\<not> includes_str (otodomPageUrl options pageNum) ''priceMax=''"
    by (intro not_includes_char [of "CHR ''M''"]) simp_all
  with False show ?thesis by simp
qed

lemma olx_page_param:
  "includes_str (olxPageUrl options pageNum) ''page='' \<longleftrightarrow> 1 < pageNum"
proof (cases "1 < pageNum")
  case True
  have "includes_str (olxPageUrl options pageNum) ''page=''"
    using falsy_or_truthy [of options]
  proof
    assume f: "maxPrice options = None \<or> maxPrice options = Some 0"
    show ?thesis
      by (rule includes_middle
          [of _ "''https://www.olx.pl/nieruchomosci/stancje-pokoje/warszawa/'' @ ''?''" _
            "numToString pageNum"])
        (simp only: olxPageUrl_forms(3) [OF f True] append_assoc)
  next
    assume "\<exists>p. maxPrice options = Some p \<and> p \<noteq> 0"
    then obtain p where p: "maxPrice options = Some p" "p \<noteq> 0" by blast
    show ?thesis
      by (rule includes_middle
          [of _ "''https://www.olx.pl/nieruchomosci/stancje-pokoje/warszawa/'' @ ''?'' @
                ''search%5Bfilter_float_price%3Ato%5D='' @ numToString p @ ''&''" _
            "numToString pageNum"])
        (simp only: olxPageUrl_forms(1) [OF p True] append_assoc)
  qed
  with True show ?thesis by simp
next
  case False
  have "CHR ''g'' \<notin> set (olxPageUrl options pageNum)"
    using falsy_or_truthy [of options]
  proof
    assume f: "maxPrice options = None \<or> maxPrice options = Some 0"
    show ?thesis by (simp add: olxPageUrl_forms(4) [OF f False])
  next
    assume "\<exists>p. maxPrice options = Some p \<and> p \<noteq> 0"
    then obtain p where p: "maxPrice options = Some p" "p \<noteq> 0" by blast
    have "CHR ''g'' \<notin> set (numToString p)"
      by (rule numToString_chars) simp
    then show ?thesis by (simp add: olxPageUrl_forms(2) [OF p False])
  qed
  then have "\<not> includes_str (olxPageUrl options pageNum) ''page=''"
    by (intro not_includes_char [of "CHR ''g''"]) simp_all
  with False show ?thesis by simp
qed

lemma otodom_page_param:
  "includes_str (otodomPageUrl options pageNum) ''page='' \<longleftrightarrow> 1 < pageNum"
proof (cases "1 < pageNum")
  case True
  have "includes_str (otodomPageUrl options pageNum) ''page=''"
    using falsy_or_truthy [of options]
  proof
    assume f: "maxPrice options = None \<or> maxPrice options = Some 0"
    show ?thesis
      by (rule includes_middle
          [of _ "''https://www.otodom.pl/pl/wyniki/wynajem/pokoj/mazowieckie/warszawa/warszawa/warszawa'' @ ''?''" _
            "numToString pageNum"])
        (simp only: otodomPageUrl_forms(3) [OF f True] append_assoc)
  next
    assume "\<exists>p. maxPrice options = Some p \<and> p \<noteq> 0"
    then obtain p where p: "maxPrice options = Some p" "p \<noteq> 0" by blast
    show ?thesis
      by (rule includes_middle
          [of _ "''https://www.otodom.pl/pl/wyniki/wynajem/pokoj/mazowieckie/warszawa/warszawa/warszawa'' @ ''?'' @
                ''priceMax='' @ numToString p @ ''&''" _
            "numToString pageNum"])
        (simp only: otodomPageUrl_forms(1) [OF p True] append_assoc)
  qed
  with True show ?thesis by simp
next
  case False
  have "CHR ''g'' \<notin> set (otodomPageUrl options pageNum)"
    using falsy_or_truthy [of options]
  proof
    assume f: "maxPrice options = None \<or> maxPrice options = Some 0"
    show ?thesis by (simp add: otodomPageUrl_forms(4) [OF f False])
  next
    assume "\<exists>p. maxPrice options = Some p \<and> p \<noteq> 0"
    then obtain p where p: "maxPrice options = Some p" "p \<noteq> 0" by blast
    have "CHR ''g'' \<notin> set (numToString p)"
      by (rule numToString_chars) simp
    then show ?thesis by (simp add: otodomPageUrl_forms(2) [OF p False])
  qed
  then have "\<not> includes_str (otodomPageUrl options pageNum) ''page=''"
    by (intro not_includes_char [of "CHR ''g''"]) simp_all
  with False show ?thesis by simp
qed

text \<open>
  C6, as the code has it, for safe integers. The page URL is a function of the options and
  the page number. It holds the price parameter of the site exactly when \<open>maxPrice\<close> is a
  number other than zero, and then with that number; it holds the \<open>page\<close> parameter
  exactly when the page number is greater than 1, and then with that number, at its end.
  Without either it is the bare listing URL.
\<close>

theorem page_url_parameters:
  assumes "safeInteger pageNum"
    and "maxPrice options = None \<or> (\<exists>q. maxPrice options = Some q \<and> safeInteger q)"
  shows
  "(includes_str (olxPageUrl options pageNum) ''search%5Bfilter_float_price%3Ato%5D=''
      \<longleftrightarrow> (\<exists>p. maxPrice options = Some p \<and> p \<noteq> 0)) \<and>
   (includes_str (otodomPageUrl options pageNum) ''priceMax=''
      \<longleftrightarrow> (\<exists>p. maxPrice options = Some p \<and> p \<noteq> 0)) \<and>
   (includes_str (olxPageUrl options pageNum) ''page='' \<longleftrightarrow> 1 < pageNum) \<and>
   (includes_str (otodomPageUrl options pageNum) ''page='' \<longleftrightarrow> 1 < pageNum) \<and>
   (maxPrice options = Some p \<and> p \<noteq> 0 \<longrightarrow>
      includes_str (olxPageUrl options pageNum)
        (''?search%5Bfilter_float_price%3Ato%5D='' @ numToString p) \<and>
      includes_str (otodomPageUrl options pageNum) (''?priceMax='' @ numToString p)) \<and>
   (1 < pageNum \<longrightarrow>
      suffix (''page='' @ numToString pageNum) (olxPageUrl options pageNum) \<and>
      suffix (''page='' @ numToString pageNum) (otodomPageUrl options pageNum)) \<and>
   ((maxPrice options = None \<or> maxPrice options = Some 0) \<and> pageNum \<le> 1 \<longrightarrow>
      olxPageUrl options pageNum = ''https://www.olx.pl/nieruchomosci/stancje-pokoje/warszawa/'' \<and>
      otodomPageUrl options pageNum
        = ''https://www.otodom.pl/pl/wyniki/wynajem/pokoj/mazowieckie/warszawa/warszawa/warszawa'')"
proof -
  have value_olx: "includes_str (olxPageUrl options pageNum)
        (''?search%5Bfilter_float_price%3Ato%5D='' @ numToString p)"
    if p: "maxPrice options = Some p" "p \<noteq> 0"
  proof (cases "1 < pageNum")
    case True
    show ?thesis
      by (rule includes_middle
          [of _ "''https://www.olx.pl/nieruchomosci/stancje-pokoje/warszawa/''" _
            "''&'' @ ''page='' @ numToString pageNum"])
        (simp add: olxPageUrl_forms(1) [OF p True])
  next
    case False
    show ?thesis
      by (rule includes_middle
          [of _ "''https://www.olx.pl/nieruchomosci/stancje-pokoje/warszawa/''" _ "[]"])
        (simp add: olxPageUrl_forms(2) [OF p False])
  qed
  have value_otodom: "includes_str (otodomPageUrl options pageNum) (''?priceMax='' @ numToString p)"
    if p: "maxPrice options = Some p" "p \<noteq> 0"
  proof (cases "1 < pageNum")
    case True
    show ?thesis
      by (rule includes_middle
          [of _ "''https://www.otodom.pl/pl/wyniki/wynajem/pokoj/mazowieckie/warszawa/warszawa/warszawa''" _
            "''&'' @ ''page='' @ numToString pageNum"])
        (simp add: otodomPageUrl_forms(1) [OF p True])
  next
    case False
    show ?thesis
      by (rule includes_middle
          [of _ "''https://www.otodom.pl/pl/wyniki/wynajem/pokoj/mazowieckie/warszawa/warszawa/warszawa''" _ "[]"])
        (simp add: otodomPageUrl_forms(2) [OF p False])
  qed
  have page_olx: "suffix (''page='' @ numToString pageNum) (olxPageUrl options pageNum)"
    if n: "1 < pageNum"
    using falsy_or_truthy [of options]
  proof
    assume f: "maxPrice options = None \<or> maxPrice options = Some 0"
    show ?thesis
      by (rule suffixI [of _ "''https://www.olx.pl/nieruchomosci/stancje-pokoje/warszawa/'' @ ''?''"]) (simp add: olxPageUrl_forms(3) [OF f n])
  next
    assume "\<exists>p. maxPrice options = Some p \<and> p \<noteq> 0"
    then obtain q where q: "maxPrice options = Some q" "q \<noteq> 0" by blast
    show ?thesis
      by (rule suffixI
          [of _ "''https://www.olx.pl/nieruchomosci/stancje-pokoje/warszawa/'' @ ''?'' @
                ''search%5Bfilter_float_price%3Ato%5D='' @ numToString q @ ''&''"])
        (simp add: olxPageUrl_forms(1) [OF q n])
  qed
  have page_otodom: "suffix (''page='' @ numToString pageNum) (otodomPageUrl options pageNum)"
    if n: "1 < pageNum"
    using falsy_or_truthy [of options]
  proof
    assume f: "maxPrice options = None \<or> maxPrice options = Some 0"
    show ?thesis
      by (rule suffixI [of _ "''https://www.otodom.pl/pl/wyniki/wynajem/pokoj/mazowieckie/warszawa/warszawa/warszawa'' @ ''?''"])
        (simp add: otodomPageUrl_forms(3) [OF f n])
  next
    assume "\<exists>p. maxPrice options = Some p \<and> p \<noteq> 0"
    then obtain q where q: "maxPrice options = Some q" "q \<noteq> 0" by blast
    show ?thesis
      by (rule suffixI
          [of _ "''https://www.otodom.pl/pl/wyniki/wynajem/pokoj/mazowieckie/warszawa/warszawa/warszawa'' @ ''?'' @
                ''priceMax='' @ numToString q @ ''&''"])
        (simp add: otodomPageUrl_forms(1) [OF q n])
  qed
  have bare: "olxPageUrl options pageNum = ''https://www.olx.pl/nieruchomosci/stancje-pokoje/warszawa/'' \<and>
      otodomPageUrl options pageNum
        = ''https://www.otodom.pl/pl/wyniki/wynajem/pokoj/mazowieckie/warszawa/warszawa/warszawa''"
    if "maxPrice options = None \<or> maxPrice options = Some 0" "pageNum \<le> 1"
  proof -
    from that(2) have n: "\<not> 1 < pageNum" by simp
    show ?thesis
      using olxPageUrl_forms(4) [OF that(1) n] otodomPageUrl_forms(4) [OF that(1) n] by simp
  qed
  from value_olx value_otodom page_olx page_otodom bare
    olx_price_param [of options pageNum] otodom_price_param [of options pageNum]
    olx_page_param [of options pageNum] otodom_page_param [of options pageNum]
  show ?thesis by blast
qed

lemma numToString_examples: "numToString 2000 = ''2000''" "numToString 3 = ''3''"
  by code_simp+

lemma example_urls:
  "olxPageUrl (request (Some 2000) None None) 3
     = ''https://www.olx.pl/nieruchomosci/stancje-pokoje/warszawa/?search%5Bfilter_float_price%3Ato%5D=2000&page=3''"
  "otodomPageUrl (request (Some 2000) None None) 3
     = ''https://www.otodom.pl/pl/wyniki/wynajem/pokoj/mazowieckie/warszawa/warszawa/warszawa?priceMax=2000&page=3''"
  "olxPageUrl (request (Some 0) None None) 1
     = ''https://www.olx.pl/nieruchomosci/stancje-pokoje/warszawa/''"
  "otodomPageUrl (request (Some 0) None None) 1
     = ''https://www.otodom.pl/pl/wyniki/wynajem/pokoj/mazowieckie/warszawa/warszawa/warszawa''"
  by (simp_all add: olxPageUrl_def otodomPageUrl_def request_def numToString_examples)

theorem page_url_parameters_witness:
  "safeInteger 3 \<and> safeInteger 2000 \<and>
   olxPageUrl (request (Some 2000) None None) 3
     = ''https://www.olx.pl/nieruchomosci/stancje-pokoje/warszawa/?search%5Bfilter_float_price%3Ato%5D=2000&page=3'' \<and>
   otodomPageUrl (request (Some 2000) None None) 3
     = ''https://www.otodom.pl/pl/wyniki/wynajem/pokoj/mazowieckie/warszawa/warszawa/warszawa?priceMax=2000&page=3'' \<and>
   includes_str (olxPageUrl (request (Some 2000) None None) 3)
     (''?search%5Bfilter_float_price%3Ato%5D='' @ numToString 2000) \<and>
   includes_str (otodomPageUrl (request (Some 2000) None None) 3) ''priceMax='' \<and>
   suffix (''page='' @ numToString 3) (otodomPageUrl (request (Some 2000) None None) 3)"
proof -
  have s: "safeInteger 3" "safeInteger 2000"
    by (simp_all add: safeInteger_def)
  have m: "maxPrice (request (Some 2000) None None) = Some 2000 \<and> (2000::int) \<noteq> 0"
    by (simp add: request_def)
  then have h: "maxPrice (request (Some 2000) None None) = None \<or>
      (\<exists>q. maxPrice (request (Some 2000) None None) = Some q \<and> safeInteger q)"
    using s by simp
  have n: "(1::int) < 3" by simp
  from s m n example_urls(1,2)
    page_url_parameters [OF s(1) h, of 2000]
  show ?thesis by blast
qed

text \<open>
  The claim as written fails for \<open>maxPrice = 0\<close>: it is present in the options, and the
  URL has no price parameter.
\<close>

theorem page_url_zero_price_counterexample:
  "maxPrice (request (Some 0) None None) = Some 0 \<and>
   olxPageUrl (request (Some 0) None None) 1
     = ''https://www.olx.pl/nieruchomosci/stancje-pokoje/warszawa/'' \<and>
   otodomPageUrl (request (Some 0) None None) 1
     = ''https://www.otodom.pl/pl/wyniki/wynajem/pokoj/mazowieckie/warszawa/warszawa/warszawa'' \<and>
   \<not> includes_str (olxPageUrl (request (Some 0) None None) 1)
     ''search%5Bfilter_float_price%3Ato%5D='' \<and>
   \<not> includes_str (otodomPageUrl (request (Some 0) None None) 1) ''priceMax=''"
proof -
  have a: "\<not> includes_str ''https://www.olx.pl/nieruchomosci/stancje-pokoje/warszawa/''
      ''search%5Bfilter_float_price%3Ato%5D=''"
    by (rule not_includes_char [of "CHR ''%''"]) simp_all
  have b: "\<not> includes_str
      ''https://www.otodom.pl/pl/wyniki/wynajem/pokoj/mazowieckie/warszawa/warszawa/warszawa''
      ''priceMax=''"
    by (rule not_includes_char [of "CHR ''M''"]) simp_all
  from a b show ?thesis
    by (simp add: example_urls(3,4)) (simp add: request_def)
qed

section \<open>The sort of main\<close>

lemma compareRooms_negative: "compareRooms a b < 0 \<longleftrightarrow> priceKey a < priceKey b"
  by (auto simp: compareRooms_def priceKey_def split: option.splits)

lemma priceKey_le: "priceKey a \<le> priceKey b \<longleftrightarrow> nullsLastLe (price a) (price b)"
  by (cases "price a"; cases "price b") (auto simp: priceKey_def)

lemma priceKey_eq: "priceKey a = priceKey b \<longleftrightarrow> price a = price b"
  by (cases "price a"; cases "price b") (auto simp: priceKey_def)

lemma mset_sortMerge: "mset (sortMerge cmp ls rs) = mset ls + mset rs"
  by (induction cmp ls rs rule: sortMerge.induct) simp_all

lemma set_sortMerge: "set (sortMerge cmp ls rs) = set ls \<union> set rs"
  using arg_cong [OF mset_sortMerge [of cmp ls rs], of set_mset] by simp

lemma sorted_sortMerge:
  fixes key :: "'a \<Rightarrow> 'k::linorder"
  shows "\<forall>a b. cmp a b < 0 \<longleftrightarrow> key a < key b \<Longrightarrow>
    sorted (map key ls) \<Longrightarrow> sorted (map key rs) \<Longrightarrow> sorted (map key (sortMerge cmp ls rs))"
proof (induction cmp ls rs rule: sortMerge.induct)
  case (1 cmp rs)
  then show ?case by simp
next
  case (2 cmp l ls)
  then show ?case by simp
next
  case (3 cmp l ls r rs)
  note lt = "3.prems"(1)
  from "3.prems" have sl: "sorted (map key ls)" "\<forall>x \<in> set ls. key l \<le> key x"
    and sr: "sorted (map key rs)" "\<forall>x \<in> set rs. key r \<le> key x"
    by auto
  show ?case
  proof (cases "cmp r l < 0")
    case True
    then have rl: "key r < key l" using lt by simp
    have "sorted (map key (sortMerge cmp (l # ls) rs))"
      using True lt "3.prems"(2) sr(1) by (rule "3.IH"(1))
    moreover have "\<forall>x \<in> set (sortMerge cmp (l # ls) rs). key r \<le> key x"
      using rl sl sr by (auto simp: set_sortMerge)
    ultimately show ?thesis using True by simp
  next
    case False
    then have lr: "key l \<le> key r" using lt by (simp add: not_less)
    have "sorted (map key (sortMerge cmp ls (r # rs)))"
      using False lt sl(1) "3.prems"(3) by (rule "3.IH"(2))
    moreover have "\<forall>x \<in> set (sortMerge cmp ls (r # rs)). key l \<le> key x"
      using lr sl sr by (auto simp: set_sortMerge)
    ultimately show ?thesis using False by simp
  qed
qed

lemma stable_sortMerge:
  fixes key :: "'a \<Rightarrow> 'k::linorder"
  shows "\<forall>a b. cmp a b < 0 \<longleftrightarrow> key a < key b \<Longrightarrow> sorted (map key ls) \<Longrightarrow>
    filter (\<lambda>x. key x = k) (sortMerge cmp ls rs)
      = filter (\<lambda>x. key x = k) ls @ filter (\<lambda>x. key x = k) rs"
proof (induction cmp ls rs rule: sortMerge.induct)
  case (1 cmp rs)
  then show ?case by simp
next
  case (2 cmp l ls)
  then show ?case by simp
next
  case (3 cmp l ls r rs)
  note lt = "3.prems"(1)
  from "3.prems" have sl: "sorted (map key ls)" "\<forall>x \<in> set ls. key l \<le> key x"
    by auto
  show ?case
  proof (cases "cmp r l < 0")
    case True
    then have rl: "key r < key l" using lt by simp
    have ih: "filter (\<lambda>x. key x = k) (sortMerge cmp (l # ls) rs)
        = filter (\<lambda>x. key x = k) (l # ls) @ filter (\<lambda>x. key x = k) rs"
      using True lt "3.prems"(2) by (rule "3.IH"(1))
    show ?thesis
    proof (cases "key r = k")
      case same: True
      have "filter (\<lambda>x. key x = k) (l # ls) = []"
        using rl sl same by (auto simp: filter_empty_conv)
      with True ih same show ?thesis by simp
    next
      case False
      with True ih show ?thesis by simp
    qed
  next
    case False
    have "filter (\<lambda>x. key x = k) (sortMerge cmp ls (r # rs))
        = filter (\<lambda>x. key x = k) ls @ filter (\<lambda>x. key x = k) (r # rs)"
      using False lt sl(1) by (rule "3.IH"(2))
    with False show ?thesis by simp
  qed
qed

lemma mset_mergePass: "mset (concat (mergePass cmp runs)) = mset (concat runs)"
  by (induction cmp runs rule: mergePass.induct) (simp_all add: mset_sortMerge)

lemma sorted_mergePass:
  fixes key :: "'a \<Rightarrow> 'k::linorder"
  shows "\<forall>a b. cmp a b < 0 \<longleftrightarrow> key a < key b \<Longrightarrow>
    \<forall>run \<in> set runs. sorted (map key run) \<Longrightarrow>
    \<forall>run \<in> set (mergePass cmp runs). sorted (map key run)"
  by (induction cmp runs rule: mergePass.induct) (simp_all add: sorted_sortMerge)

lemma stable_mergePass:
  fixes key :: "'a \<Rightarrow> 'k::linorder"
  shows "\<forall>a b. cmp a b < 0 \<longleftrightarrow> key a < key b \<Longrightarrow>
    \<forall>run \<in> set runs. sorted (map key run) \<Longrightarrow>
    filter (\<lambda>x. key x = k) (concat (mergePass cmp runs))
      = filter (\<lambda>x. key x = k) (concat runs)"
  by (induction cmp runs rule: mergePass.induct) (simp_all add: stable_sortMerge)

lemma mset_mergeRuns: "mset (mergeRuns cmp runs) = mset (concat runs)"
proof (induction cmp runs rule: mergeRuns.induct)
  case (3 cmp a b runs)
  then show ?case
    using mset_mergePass [of cmp "a # b # runs"] by simp
qed simp_all

lemma sorted_mergeRuns:
  fixes key :: "'a \<Rightarrow> 'k::linorder"
  shows "\<forall>a b. cmp a b < 0 \<longleftrightarrow> key a < key b \<Longrightarrow>
    \<forall>run \<in> set runs. sorted (map key run) \<Longrightarrow> sorted (map key (mergeRuns cmp runs))"
proof (induction cmp runs rule: mergeRuns.induct)
  case (3 cmp a b runs)
  have "sorted (map key (mergeRuns cmp (mergePass cmp (a # b # runs))))"
    using "3.prems"(1) sorted_mergePass [OF "3.prems"] by (rule "3.IH")
  then show ?case
    by (simp del: mergePass.simps)
qed simp_all

lemma stable_mergeRuns:
  fixes key :: "'a \<Rightarrow> 'k::linorder"
  shows "\<forall>a b. cmp a b < 0 \<longleftrightarrow> key a < key b \<Longrightarrow>
    \<forall>run \<in> set runs. sorted (map key run) \<Longrightarrow>
    filter (\<lambda>x. key x = k) (mergeRuns cmp runs) = filter (\<lambda>x. key x = k) (concat runs)"
proof (induction cmp runs rule: mergeRuns.induct)
  case (3 cmp a b runs)
  have "filter (\<lambda>x. key x = k) (mergeRuns cmp (mergePass cmp (a # b # runs)))
      = filter (\<lambda>x. key x = k) (concat (mergePass cmp (a # b # runs)))"
    using "3.prems"(1) sorted_mergePass [OF "3.prems"] by (rule "3.IH")
  also have "\<dots> = filter (\<lambda>x. key x = k) (concat (a # b # runs))"
    using "3.prems" by (rule stable_mergePass)
  finally show ?case
    by (simp del: mergePass.simps)
qed simp_all

lemma concat_singletons: "concat (map (\<lambda>x. [x]) xs) = xs"
  by (induction xs) simp_all

lemma arraySort_is_sort_key:
  fixes key :: "'a \<Rightarrow> 'k::linorder"
  assumes lt: "\<forall>a b. cmp a b < 0 \<longleftrightarrow> key a < key b"
  shows "arraySort cmp xs = sort_key key xs"
proof (rule sym, rule properties_for_sort_key)
  have runs: "\<forall>run \<in> set (map (\<lambda>x. [x]) xs). sorted (map key run)"
    by simp
  show "mset (arraySort cmp xs) = mset xs"
    by (simp add: arraySort_def mset_mergeRuns concat_singletons)
  show "sorted (map key (arraySort cmp xs))"
    unfolding arraySort_def using lt runs by (rule sorted_mergeRuns)
  show "filter (\<lambda>x. key y = key x) (arraySort cmp xs) = filter (\<lambda>x. key y = key x) xs" for y
    using stable_mergeRuns [OF lt runs, of "key y"]
    by (simp add: arraySort_def concat_singletons eq_commute [of "key y"])
qed

lemma sortRooms_is_sort_key: "sortRooms rooms = sort_key priceKey rooms"
  unfolding sortRooms_def by (rule arraySort_is_sort_key) (simp add: compareRooms_negative)

lemma sorted_priceKey:
  "sorted (map priceKey rooms) \<longleftrightarrow> sorted_wrt (\<lambda>a b. nullsLastLe (price a) (price b)) rooms"
  by (simp add: sorted_map priceKey_le)

lemma priceKey_of_price: "priceKey r = priceKey x \<Longrightarrow> price r = price x"
  by (simp add: priceKey_eq)

lemma filter_by_price:
  "filter (\<lambda>r. price r = p) (sort_key priceKey rooms) = filter (\<lambda>r. price r = p) rooms"
proof -
  let ?k = "case p of None \<Rightarrow> (1::nat, 0::int) | Some q \<Rightarrow> (0, q)"
  have "(\<lambda>r. price r = p) = (\<lambda>r. priceKey r = ?k)"
    by (rule ext) (auto simp: priceKey_def split: option.splits)
  then show ?thesis
    by (simp add: sort_key_stable)
qed

text \<open>
  C2. For every list of listings the sorted list is non-decreasing in price with the
  listings without a price after all the others; it holds the same listings; listings of
  equal price, and the listings without a price, keep the order they had; sorting a sorted
  list, and so sorting twice, changes nothing. The output of \<open>main\<close> is such a list.

  The comparator answers 1 for two listings without a price, whichever comes first, so
  it is not a consistent comparator. The merge only asks whether its answer for (right,
  left) is negative, and that question is the strict order of \<open>priceKey\<close>.
\<close>

theorem sort_by_price_stable:
  "sorted_wrt (\<lambda>a b. nullsLastLe (price a) (price b)) (sortRooms rooms) \<and>
   mset (sortRooms rooms) = mset rooms \<and>
   (\<forall>p. filter (\<lambda>r. price r = p) (sortRooms rooms) = filter (\<lambda>r. price r = p) rooms) \<and>
   sortRooms (sortRooms rooms) = sortRooms rooms \<and>
   (sorted_wrt (\<lambda>a b. nullsLastLe (price a) (price b)) rooms \<longrightarrow> sortRooms rooms = rooms) \<and>
   (mainRooms olxWeb otodomWeb src options = Inr out \<longrightarrow>
      sorted_wrt (\<lambda>a b. nullsLastLe (price a) (price b)) out)"
proof -
  have sorted_out: "sorted_wrt (\<lambda>a b. nullsLastLe (price a) (price b)) (sortRooms xs)" for xs
    by (simp add: sorted_priceKey [symmetric] sortRooms_is_sort_key)
  have perm: "mset (sortRooms rooms) = mset rooms"
    by (simp add: sortRooms_is_sort_key)
  have stable: "filter (\<lambda>r. price r = p) (sortRooms rooms) = filter (\<lambda>r. price r = p) rooms" for p
    by (simp add: sortRooms_is_sort_key filter_by_price)
  have fixed: "sortRooms xs = xs" if "sorted_wrt (\<lambda>a b. nullsLastLe (price a) (price b)) xs" for xs
    using that by (simp add: sortRooms_is_sort_key sorted_priceKey [symmetric] sort_key_id_if_sorted)
  have twice: "sortRooms (sortRooms rooms) = sortRooms rooms"
    using sorted_out by (rule fixed)
  have main_out: "sorted_wrt (\<lambda>a b. nullsLastLe (price a) (price b)) out"
    if "mainRooms olxWeb otodomWeb src options = Inr out"
  proof -
    from that obtain xs where "out = sortRooms xs"
      by (auto simp: mainRooms_def split: sum.splits if_splits)
    with sorted_out show ?thesis by simp
  qed
  from sorted_out perm stable fixed twice main_out show ?thesis
    by blast
qed

text \<open>
  Two priced and two unpriced listings, the unpriced first: the priced ones come first in
  their order, then the unpriced ones in theirs, and a second sort keeps the list.
\<close>

theorem sort_by_price_stable_witness:
  "map price [olxB, olxA, otodomB, otodomA] = [None, Some 1500, None, Some 1500] \<and>
   sortRooms [olxB, olxA, otodomB, otodomA] = [olxA, otodomA, olxB, otodomB] \<and>
   sorted_wrt (\<lambda>a b. nullsLastLe (price a) (price b)) [olxA, otodomA, olxB, otodomB] \<and>
   sortRooms [olxA, otodomA, olxB, otodomB] = [olxA, otodomA, olxB, otodomB]"
proof -
  have p: "map price [olxB, olxA, otodomB, otodomA] = [None, Some 1500, None, Some 1500]"
    by (simp add: olxA_def olxB_def otodomA_def otodomB_def)
  have e: "sortRooms [olxB, olxA, otodomB, otodomA] = [olxA, otodomA, olxB, otodomB]"
    using p by (simp add: sortRooms_def arraySort_def compareRooms_def)
  have s: "sorted_wrt (\<lambda>a b. nullsLastLe (price a) (price b)) [olxA, otodomA, olxB, otodomB]"
    using p by simp
  from p e s sort_by_price_stable [of "[olxA, otodomA, olxB, otodomB]"]
  show ?thesis by blast
qed

end
